theory Spec2Isabelle
  imports Complex_Main "HOL-Library.Word" "HOL-Library.Multiset"
begin

section \<open>Paths, bytes and exceptions\<close>

text \<open>
  A path is the list of its components below the root; a manifest filename is one
  component. File contents are bytes. The exceptions are those the code and the
  libraries it calls raise.
\<close>

type_synonym path = "string list"

type_synonym bytes = "8 word list"

datatype error =
    FileNotFoundError path
  | RuntimeError string
  | RemoteFetchError path
  | RasterioIOError
  | ValueError
  | IndexError
  | OverflowError

section \<open>Arrays and the example processor\<close>

text \<open>
  The raster codec hands back numpy arrays. An array is modelled by its dtype and its
  flat element buffer; every operation used by the processors is elementwise, so the
  shape plays no part. A floating-point element is either a finite value (a real;
  rounding is not modelled) or one of the three special values. An integer array has
  one of the eight integer dtypes of a raster band, and its elements are integers within
  the range of that dtype.
\<close>

datatype npfloat = Finite real | PosInf | NegInf | NaN

datatype ftype = Float32 | Float64

datatype itype = Int8 | Int16 | Int32 | Int64 | UInt8 | UInt16 | UInt32 | UInt64

datatype ndarray = FloatArray ftype "npfloat list" | IntArray itype "int list"

text \<open>\<open>np.iinfo(dtype).min\<close> and \<open>np.iinfo(dtype).max\<close>.\<close>

fun iinfo_min :: "itype \<Rightarrow> int" where
  "iinfo_min Int8 = - (2 ^ 7)"
| "iinfo_min Int16 = - (2 ^ 15)"
| "iinfo_min Int32 = - (2 ^ 31)"
| "iinfo_min Int64 = - (2 ^ 63)"
| "iinfo_min UInt8 = 0"
| "iinfo_min UInt16 = 0"
| "iinfo_min UInt32 = 0"
| "iinfo_min UInt64 = 0"

fun iinfo_max :: "itype \<Rightarrow> int" where
  "iinfo_max Int8 = 2 ^ 7 - 1"
| "iinfo_max Int16 = 2 ^ 15 - 1"
| "iinfo_max Int32 = 2 ^ 31 - 1"
| "iinfo_max Int64 = 2 ^ 63 - 1"
| "iinfo_max UInt8 = 2 ^ 8 - 1"
| "iinfo_max UInt16 = 2 ^ 16 - 1"
| "iinfo_max UInt32 = 2 ^ 32 - 1"
| "iinfo_max UInt64 = 2 ^ 64 - 1"

text \<open>The value an integer takes when it is stored in a dtype modulo the dtype's size.\<close>

definition wrap_int :: "itype \<Rightarrow> int \<Rightarrow> int" where
  "wrap_int t v = (v - iinfo_min t) mod (iinfo_max t - iinfo_min t + 1) + iinfo_min t"

text \<open>Whether every element of an array of this dtype can hold the integer \<open>v\<close>.\<close>

fun can_store :: "ndarray \<Rightarrow> int \<Rightarrow> bool" where
  "can_store (FloatArray dt xs) v = True"
| "can_store (IntArray t xs) v = (iinfo_min t \<le> v \<and> v \<le> iinfo_max t)"

text \<open>\<open>np.finfo(dtype).max\<close>, the value \<open>np.nan_to_num\<close> puts in place of an infinity.\<close>

fun finfo_max :: "ftype \<Rightarrow> real" where
  "finfo_max Float32 = (2 ^ 24 - 1) * 2 ^ 104"
| "finfo_max Float64 = (2 ^ 53 - 1) * 2 ^ 971"

text \<open>
  \<open>np.nan_to_num(x)\<close> with its default arguments (\<open>nan=0.0\<close>, \<open>posinf=None\<close>,
  \<open>neginf=None\<close>): NaN becomes zero, an infinity becomes the largest finite value of the
  dtype with the sign of the infinity. An integer array is copied as it is.
\<close>

fun nan_to_num1 :: "ftype \<Rightarrow> npfloat \<Rightarrow> npfloat" where
  "nan_to_num1 dt NaN = Finite 0"
| "nan_to_num1 dt PosInf = Finite (finfo_max dt)"
| "nan_to_num1 dt NegInf = Finite (- finfo_max dt)"
| "nan_to_num1 dt (Finite r) = Finite r"

fun np_nan_to_num :: "ndarray \<Rightarrow> ndarray" where
  "np_nan_to_num (FloatArray dt xs) = FloatArray dt (map (nan_to_num1 dt) xs)"
| "np_nan_to_num (IntArray t xs) = IntArray t xs"

text \<open>
  \<open>np.clip(a, lo, hi)\<close>, that is \<open>minimum(maximum(a, lo), hi)\<close>; NaN stays NaN. On an
  integer array a bound outside the range of the dtype has no effect on elements within
  the range, and the dtype is kept.
\<close>

fun clip1 :: "real \<Rightarrow> real \<Rightarrow> npfloat \<Rightarrow> npfloat" where
  "clip1 lo hi (Finite r) = Finite (min (max r lo) hi)"
| "clip1 lo hi PosInf = Finite hi"
| "clip1 lo hi NegInf = Finite (min lo hi)"
| "clip1 lo hi NaN = NaN"

fun np_clip :: "ndarray \<Rightarrow> int \<Rightarrow> int \<Rightarrow> ndarray" where
  "np_clip (FloatArray dt xs) lo hi = FloatArray dt (map (clip1 (of_int lo) (of_int hi)) xs)"
| "np_clip (IntArray t xs) lo hi = IntArray t (map (\<lambda>x. min (max x lo) hi) xs)"

text \<open>
  \<open>a + c\<close> for an integer constant \<open>c\<close> that the dtype can hold: an integer array keeps
  its dtype and a sum outside its range wraps around.
\<close>

fun add1 :: "real \<Rightarrow> npfloat \<Rightarrow> npfloat" where
  "add1 c (Finite r) = Finite (r + c)"
| "add1 c PosInf = PosInf"
| "add1 c NegInf = NegInf"
| "add1 c NaN = NaN"

fun np_add :: "ndarray \<Rightarrow> int \<Rightarrow> ndarray" where
  "np_add (FloatArray dt xs) c = FloatArray dt (map (add1 (of_int c)) xs)"
| "np_add (IntArray t xs) c = IntArray t (map (\<lambda>x. wrap_int t (x + c)) xs)"

text \<open>
  \<open>a / c\<close> for a positive integer constant \<open>c\<close>: true division, so an integer array
  becomes a float64 array.
\<close>

fun div1 :: "real \<Rightarrow> npfloat \<Rightarrow> npfloat" where
  "div1 c (Finite r) = Finite (r / c)"
| "div1 c PosInf = PosInf"
| "div1 c NegInf = NegInf"
| "div1 c NaN = NaN"

fun np_true_divide :: "ndarray \<Rightarrow> int \<Rightarrow> ndarray" where
  "np_true_divide (FloatArray dt xs) c = FloatArray dt (map (div1 (of_int c)) xs)"
| "np_true_divide (IntArray t xs) c =
     FloatArray Float64 (map (\<lambda>x. Finite (of_int x / of_int c)) xs)"

text \<open>\<open>Sen1floods11Dataset.process_image\<close>: the value it returns.\<close>

definition process_image :: "ndarray \<Rightarrow> ndarray" where
  "process_image img =
     (let img = np_nan_to_num img;
          img = np_clip img (- 50) 1;
          img = np_true_divide (np_add img 50) 51
      in img)"

text \<open>\<open>a == c\<close>: the boolean selection array. NaN and the infinities equal no integer.\<close>

fun np_equal :: "ndarray \<Rightarrow> int \<Rightarrow> bool list" where
  "np_equal (FloatArray dt xs) c = map (\<lambda>x. x = Finite (of_int c)) xs"
| "np_equal (IntArray t xs) c = map (\<lambda>x. x = c) xs"

text \<open>
  \<open>a[sel] = v\<close> for a boolean selection array of the shape of \<open>a\<close> and a Python integer
  \<open>v\<close>. The integer is first converted to the dtype of the array. When an integer dtype
  cannot hold it, numpy 2 raises \<open>OverflowError\<close> and changes nothing, and numpy before 2
  stores the value wrapped around; \<open>strict\<close> says which numpy is in use.
\<close>

fun np_setitem :: "bool \<Rightarrow> ndarray \<Rightarrow> bool list \<Rightarrow> int \<Rightarrow> error + ndarray" where
  "np_setitem strict (FloatArray dt xs) sel v =
     Inr (FloatArray dt (map (\<lambda>(b, x). if b then Finite (of_int v) else x) (zip sel xs)))"
| "np_setitem strict (IntArray t xs) sel v =
     (if iinfo_min t \<le> v \<and> v \<le> iinfo_max t then
        Inr (IntArray t (map (\<lambda>(b, x). if b then v else x) (zip sel xs)))
      else if strict then Inl OverflowError
      else Inr (IntArray t (map (\<lambda>(b, x). if b then wrap_int t v else x) (zip sel xs))))"

text \<open>
  \<open>Sen1floods11Dataset.process_mask\<close>: the content of the array after the call, or the
  exception raised.
\<close>

definition process_mask :: "bool \<Rightarrow> ndarray \<Rightarrow> error + ndarray" where
  "process_mask strict msk = np_setitem strict msk (np_equal msk (- 1)) 255"

subsection \<open>Array objects\<close>

text \<open>
  Whether a processor works in place is a question about array objects, not values. The
  store maps object references to array contents; references below \<open>nalloc\<close> are in use.
  Every numpy operation of \<open>process_image\<close> returns a new array object; the indexed
  assignment of \<open>process_mask\<close> writes into the object it is given.
\<close>

type_synonym ref = nat

record store =
  cells :: "ref \<Rightarrow> ndarray"
  nalloc :: nat

definition alloc :: "ndarray \<Rightarrow> store \<Rightarrow> ref \<times> store" where
  "alloc a s = (nalloc s, s\<lparr>cells := (cells s)(nalloc s := a), nalloc := Suc (nalloc s)\<rparr>)"

definition process_image_obj :: "ref \<Rightarrow> store \<Rightarrow> ref \<times> store" where
  "process_image_obj img s =
     (let (img, s) = alloc (np_nan_to_num (cells s img)) s;
          (img, s) = alloc (np_clip (cells s img) (- 50) 1) s;
          (tmp, s) = alloc (np_add (cells s img) 50) s;
          (img, s) = alloc (np_true_divide (cells s tmp) 51) s
      in (img, s))"

definition process_mask_obj :: "bool \<Rightarrow> ref \<Rightarrow> store \<Rightarrow> (error + ref) \<times> store" where
  "process_mask_obj strict msk s =
     (let sel = np_equal (cells s msk) (- 1) in
      case np_setitem strict (cells s msk) sel 255 of
        Inl e \<Rightarrow> (Inl e, s)
      | Inr a \<Rightarrow> (Inr msk, s\<lparr>cells := (cells s)(msk := a)\<rparr>))"

section \<open>Files, the remote store and the raster codec\<close>

text \<open>
  The state holds the local files and directories, the content of the remote (DVC)
  store, and the log of the paths \<open>read_bytes\<close> was called with: the log is what a mocked
  store would record. Operating-system failures of \<open>mkdir\<close> and of writing a file are
  not modelled.
\<close>

record world =
  files :: "path \<rightharpoonup> bytes"
  dirs :: "path set"
  remote :: "path \<rightharpoonup> bytes"
  reads :: "path list"

text \<open>
  The libraries the code calls but does not define: rasterio (\<open>decode\<close> opens a raster
  and reads its bands and its profile, failing on bytes that are no raster; \<open>encode\<close>
  writes an array under a profile), \<open>csv.reader\<close> over a text file, line iteration
  over a text file, and numpy, of which the model needs to know whether it raises on a
  Python integer that an array's dtype cannot hold (numpy 2) or wraps it (before).
\<close>

record 'p libs =
  decode :: "bytes \<Rightarrow> (ndarray \<times> 'p) option"
  encode :: "ndarray \<Rightarrow> 'p \<Rightarrow> bytes"
  csv_reader :: "bytes \<Rightarrow> string list list"
  text_lines :: "bytes \<Rightarrow> string list"
  numpy_strict :: bool

text \<open>\<open>str(path)\<close>.\<close>

definition render :: "path \<Rightarrow> string" where
  "render p = (if p = [] then ''/'' else concat (map (\<lambda>c. ''/'' @ c) p))"

definition S1 :: path where
  "S1 = [''v1.1'', ''data'', ''flood_events'', ''HandLabeled'', ''S1Hand'']"

definition LABELS :: path where
  "LABELS = [''v1.1'', ''data'', ''flood_events'', ''HandLabeled'', ''LabelHand'']"

definition is_file :: "world \<Rightarrow> path \<Rightarrow> bool" where
  "is_file w p = (files w p \<noteq> None)"

text \<open>\<open>read_bytes\<close> of the remote store: the call is logged whether or not it succeeds.\<close>

definition read_bytes :: "path \<Rightarrow> world \<Rightarrow> (error + bytes) \<times> world" where
  "read_bytes p w =
     (case remote w p of
        None \<Rightarrow> (Inl (RemoteFetchError p), w\<lparr>reads := reads w @ [p]\<rparr>)
      | Some b \<Rightarrow> (Inr b, w\<lparr>reads := reads w @ [p]\<rparr>))"

fun path_prefixes :: "path \<Rightarrow> path list" where
  "path_prefixes [] = [[]]"
| "path_prefixes (c # cs) = [] # map ((#) c) (path_prefixes cs)"

text \<open>\<open>mkdir(parents=True, exist_ok=True)\<close> and \<open>os.makedirs(p, exist_ok=True)\<close>.\<close>

definition mkdir_parents :: "path \<Rightarrow> world \<Rightarrow> world" where
  "mkdir_parents p w = w\<lparr>dirs := dirs w \<union> set (path_prefixes p)\<rparr>"

definition write_file :: "path \<Rightarrow> bytes \<Rightarrow> world \<Rightarrow> world" where
  "write_file p b w = w\<lparr>files := (files w)(p \<mapsto> b)\<rparr>"

text \<open>\<open>with rasterio.open(...) as src: image = src.read()\<close> on the given bytes.\<close>

definition rasterio_read :: "'p libs \<Rightarrow> bytes \<Rightarrow> error + ndarray" where
  "rasterio_read lb b = (case decode lb b of None \<Rightarrow> Inl RasterioIOError | Some (img, prof) \<Rightarrow> Inr img)"

text \<open>A local file that exists and that the codec can read.\<close>

definition readable :: "'p libs \<Rightarrow> world \<Rightarrow> path \<Rightarrow> bool" where
  "readable lb w p = (case files w p of None \<Rightarrow> False | Some b \<Rightarrow> decode lb b \<noteq> None)"

text \<open>A local file that the codec reads as an array whose dtype can hold 255.\<close>

definition readable_mask :: "'p libs \<Rightarrow> world \<Rightarrow> path \<Rightarrow> bool" where
  "readable_mask lb w p =
     (case files w p of
        None \<Rightarrow> False
      | Some b \<Rightarrow> (case decode lb b of None \<Rightarrow> False | Some (msk, prof) \<Rightarrow> can_store msk 255))"

section \<open>The standalone generator (dataset.py)\<close>

record FloodDatasetGenerator =
  gen_context :: path
  split :: string

text \<open>\<open>FloodDatasetGenerator._load_image\<close>.\<close>

definition load_image ::
  "'p libs \<Rightarrow> FloodDatasetGenerator \<Rightarrow> path \<Rightarrow> string \<Rightarrow> bool \<Rightarrow> bool \<Rightarrow> world
     \<Rightarrow> (error + ndarray) \<times> world" where
  "load_image lb self image_dir image_name stream stream_cache w =
     (let local_path = gen_context self @ image_dir @ [image_name] in
      if is_file w local_path then
        (case files w local_path of
           Some b \<Rightarrow> (rasterio_read lb b, w)
         | None \<Rightarrow> (Inl (FileNotFoundError local_path), w))
      else if stream then
        (let dvc_path = image_dir @ [image_name] in
         case read_bytes dvc_path w of
           (Inl e, w) \<Rightarrow> (Inl e, w)
         | (Inr binary_image, w) \<Rightarrow>
             (case decode lb binary_image of
                None \<Rightarrow> (Inl RasterioIOError, w)
              | Some (img, prof) \<Rightarrow>
                  if stream_cache then
                    (Inr img, write_file local_path binary_image (mkdir_parents (butlast local_path) w))
                  else (Inr img, w)))
      else (Inl (RuntimeError (''File not accessible: '' @ render local_path)), w))"

text \<open>Indexing a row with a non-negative index.\<close>

definition getitem :: "'a list \<Rightarrow> nat \<Rightarrow> error + 'a" where
  "getitem xs i = (if i < length xs then Inr (xs ! i) else Inl IndexError)"

text \<open>
  \<open>random.shuffle\<close>: for \<open>i\<close> from the last index down to 1, swap the elements at \<open>i\<close> and
  at a random \<open>j \<le> i\<close>. The random source \<open>rnd\<close> gives the draw made at index \<open>i\<close>.
\<close>

fun shuffle_from :: "(nat \<Rightarrow> nat) \<Rightarrow> nat \<Rightarrow> 'a list \<Rightarrow> 'a list" where
  "shuffle_from rnd 0 xs = xs"
| "shuffle_from rnd (Suc k) xs =
     (let i = Suc k; j = rnd i mod (i + 1)
      in shuffle_from rnd k (xs[i := xs ! j, j := xs ! i]))"

definition random_shuffle :: "(nat \<Rightarrow> nat) \<Rightarrow> 'a list \<Rightarrow> 'a list" where
  "random_shuffle rnd xs = shuffle_from rnd (length xs - 1) xs"

type_synonym example = "string \<rightharpoonup> ndarray"

text \<open>
  A generator run to its end: the loop body is applied to the items in order; each
  result is yielded; the first exception ends the iteration. The run gives the values
  yielded, the exception if one was raised, and the state left behind.
\<close>

fun run_generator ::
  "('r \<Rightarrow> world \<Rightarrow> (error + 'x) \<times> world) \<Rightarrow> 'r list \<Rightarrow> world
     \<Rightarrow> 'x list \<times> error option \<times> world" where
  "run_generator body [] w = ([], None, w)"
| "run_generator body (r # rs) w =
     (case body r w of
        (Inl e, w) \<Rightarrow> ([], Some e, w)
      | (Inr x, w) \<Rightarrow>
          (case run_generator body rs w of (xs, res, w) \<Rightarrow> (x # xs, res, w)))"

text \<open>The body of the loop of \<open>FloodDatasetGenerator.__call__\<close>, for one row.\<close>

definition call_body ::
  "'p libs \<Rightarrow> FloodDatasetGenerator \<Rightarrow> bool \<Rightarrow> bool \<Rightarrow> (example \<Rightarrow> example) option
     \<Rightarrow> string list \<Rightarrow> world \<Rightarrow> (error + example) \<times> world" where
  "call_body lb self stream stream_cache process_func row w =
     (case getitem row 0 of
        Inl e \<Rightarrow> (Inl e, w)
      | Inr image_name \<Rightarrow>
     (case load_image lb self S1 image_name stream stream_cache w of
        (Inl e, w) \<Rightarrow> (Inl e, w)
      | (Inr img, w) \<Rightarrow>
     (case getitem row 1 of
        Inl e \<Rightarrow> (Inl e, w)
      | Inr mask_name \<Rightarrow>
     (case load_image lb self LABELS mask_name stream stream_cache w of
        (Inl e, w) \<Rightarrow> (Inl e, w)
      | (Inr msk, w) \<Rightarrow>
         (let data = [''image'' \<mapsto> img, ''mask'' \<mapsto> msk];
              data = (case process_func of None \<Rightarrow> data | Some f \<Rightarrow> f data)
          in (Inr data, w))))))"

text \<open>The order in which \<open>__call__\<close> visits the rows.\<close>

definition visit_order :: "(nat \<Rightarrow> nat) \<Rightarrow> bool \<Rightarrow> 'a list \<Rightarrow> 'a list" where
  "visit_order rnd shuffle rows = (if shuffle then random_shuffle rnd rows else rows)"

text \<open>\<open>FloodDatasetGenerator.__call__\<close>.\<close>

definition call ::
  "'p libs \<Rightarrow> FloodDatasetGenerator \<Rightarrow> (nat \<Rightarrow> nat) \<Rightarrow> bool \<Rightarrow> bool \<Rightarrow> bool
     \<Rightarrow> (example \<Rightarrow> example) option \<Rightarrow> world \<Rightarrow> example list \<times> error option \<times> world" where
  "call lb self rnd shuffle stream stream_cache process_func w =
     (let csv_file_path = gen_context self @ [split self] in
      case files w csv_file_path of
        None \<Rightarrow> ([], Some (FileNotFoundError csv_file_path), w)
      | Some f \<Rightarrow>
          run_generator (call_body lb self stream stream_cache process_func)
            (visit_order rnd shuffle (csv_reader lb f)) w)"

text \<open>\<open>FloodDatasetGenerator.__len__\<close>.\<close>

definition len :: "'p libs \<Rightarrow> FloodDatasetGenerator \<Rightarrow> world \<Rightarrow> error + nat" where
  "len lb self w =
     (let csv_file_path = gen_context self @ [split self] in
      case files w csv_file_path of
        None \<Rightarrow> Inl (FileNotFoundError csv_file_path)
      | Some f \<Rightarrow> Inr (length (csv_reader lb f)))"

subsection \<open>The loader\<close>

definition SPLITS :: "(string \<times> string) list" where
  "SPLITS =
     [(''train'', ''train_data.csv''),
      (''validation'', ''valid_data.csv''),
      (''test'', ''test_data.csv''),
      (''sample'', ''sample_data.csv'')]"

text \<open>\<open>dict.get(key, default)\<close>.\<close>

definition dict_get :: "('k \<times> 'v) list \<Rightarrow> 'k \<Rightarrow> 'v \<Rightarrow> 'v" where
  "dict_get d key dflt = (case map_of d key of None \<Rightarrow> dflt | Some v \<Rightarrow> v)"

text \<open>\<open>DatasetLoader.__getitem__\<close>, for a loader with the given context.\<close>

definition loader_getitem :: "path \<Rightarrow> string \<Rightarrow> FloodDatasetGenerator" where
  "loader_getitem ctx key = \<lparr>gen_context = ctx, split = dict_get SPLITS key key\<rparr>"

section \<open>The framework builder (sen1floods11\_dataset.py)\<close>

record CustomBuilderConfig =
  no_cache :: bool
  config_context :: path

text \<open>\<open>Sen1floods11Dataset.load_input\<close>.\<close>

definition load_input ::
  "'p libs \<Rightarrow> CustomBuilderConfig \<Rightarrow> path \<Rightarrow> string \<Rightarrow> bool \<Rightarrow> world
     \<Rightarrow> (error + ndarray) \<times> world" where
  "load_input lb config input_path image_name nocache w =
     (let local_path = config_context config @ input_path @ [image_name];
          dvc_path = input_path @ [image_name]
      in
      if nocache then
        (case read_bytes dvc_path w of
           (Inl e, w) \<Rightarrow> (Inl e, w)
         | (Inr binary_image, w) \<Rightarrow> (rasterio_read lb binary_image, w))
      else if \<not> is_file w local_path \<and> \<not> nocache then
        (let w = mkdir_parents (butlast local_path) w in
         case read_bytes dvc_path w of
           (Inl e, w) \<Rightarrow> (Inl e, w)
         | (Inr binary_image, w) \<Rightarrow>
             (case decode lb binary_image of
                None \<Rightarrow> (Inl RasterioIOError, w)
              | Some (img, profile) \<Rightarrow>
                  (Inr img, write_file local_path (encode lb img profile) w)))
      else
        (case files w local_path of
           Some b \<Rightarrow> (rasterio_read lb b, w)
         | None \<Rightarrow> (Inl (FileNotFoundError local_path), w)))"

text \<open>
  \<open>str.isspace\<close> on one character, a character standing for a code point below 256, and
  \<open>str.strip()\<close>.
\<close>

definition isspace :: "char \<Rightarrow> bool" where
  "isspace c =
     (c \<in> {CHR 0x09, CHR 0x0A, CHR 0x0B, CHR 0x0C, CHR 0x0D, CHR 0x1C, CHR 0x1D, CHR 0x1E,
           CHR 0x1F, CHR 0x20, CHR 0x85, CHR 0xA0})"

definition strip :: "string \<Rightarrow> string" where
  "strip s = rev (dropWhile isspace (rev (dropWhile isspace s)))"

text \<open>\<open>str.split(sep)\<close> for a one-character separator.\<close>

fun str_split :: "char \<Rightarrow> string \<Rightarrow> string list" where
  "str_split sep [] = [[]]"
| "str_split sep (c # cs) =
     (if c = sep then [] # str_split sep cs
      else (case str_split sep cs of [] \<Rightarrow> [[c]] | f # fs \<Rightarrow> (c # f) # fs))"

text \<open>Unpacking a sequence into two names.\<close>

fun unpack2 :: "'a list \<Rightarrow> error + 'a \<times> 'a" where
  "unpack2 [a, b] = Inr (a, b)"
| "unpack2 xs = Inl ValueError"

text \<open>\<open>enumerate\<close>.\<close>

definition enumerate_from0 :: "'a list \<Rightarrow> (nat \<times> 'a) list" where
  "enumerate_from0 xs = zip [0..<length xs] xs"

text \<open>
  The body of the loop of \<open>Sen1floods11Dataset._generate_examples\<close>, for one numbered
  line.
\<close>

definition generate_body ::
  "'p libs \<Rightarrow> CustomBuilderConfig \<Rightarrow> nat \<times> string \<Rightarrow> world
     \<Rightarrow> (error + nat \<times> example) \<times> world" where
  "generate_body lb config item w =
     (case item of (idx, line) \<Rightarrow>
     (case unpack2 (str_split CHR '','' (strip line)) of
        Inl e \<Rightarrow> (Inl e, w)
      | Inr (image_name, mask_name) \<Rightarrow>
     (case load_input lb config S1 image_name (no_cache config) w of
        (Inl e, w) \<Rightarrow> (Inl e, w)
      | (Inr img, w) \<Rightarrow>
     (let img = process_image img in
      case load_input lb config LABELS mask_name (no_cache config) w of
        (Inl e, w) \<Rightarrow> (Inl e, w)
      | (Inr msk, w) \<Rightarrow>
         (case process_mask (numpy_strict lb) msk of
            Inl e \<Rightarrow> (Inl e, w)
          | Inr msk \<Rightarrow> (Inr (idx, [''image'' \<mapsto> img, ''mask'' \<mapsto> msk]), w))))))"

text \<open>\<open>Sen1floods11Dataset._generate_examples\<close>.\<close>

definition generate_examples ::
  "'p libs \<Rightarrow> CustomBuilderConfig \<Rightarrow> path \<Rightarrow> world
     \<Rightarrow> (nat \<times> example) list \<times> error option \<times> world" where
  "generate_examples lb config csv_file w =
     (case files w csv_file of
        None \<Rightarrow> ([], Some (FileNotFoundError csv_file), w)
      | Some f \<Rightarrow> run_generator (generate_body lb config) (enumerate_from0 (text_lines lb f)) w)"

section \<open>Test harness\<close>

text \<open>
  Two resolutions of the same reference in sequence: an exception in the first ends the
  sequence.
\<close>

definition twice :: "(world \<Rightarrow> (error + 'a) \<times> world) \<Rightarrow> world \<Rightarrow> (error + 'a \<times> 'a) \<times> world" where
  "twice f w =
     (case f w of
        (Inl e, w) \<Rightarrow> (Inl e, w)
      | (Inr a, w) \<Rightarrow>
          (case f w of
             (Inl e, w) \<Rightarrow> (Inl e, w)
           | (Inr b, w) \<Rightarrow> (Inr (a, b), w)))"

text \<open>
  Test doubles: a codec whose files are a profile byte followed by the samples of an
  int16 band, a numpy that raises on integers out of range, canned
  manifests (one manifest byte per row), a generator and a builder configuration over
  the same context, and a state with one image and one mask cached and three objects in
  the remote store.
\<close>

definition mock_libs :: "8 word libs" where
  "mock_libs =
     \<lparr>decode = (\<lambda>b. case b of [] \<Rightarrow> None | t # xs \<Rightarrow> Some (IntArray Int16 (map sint xs), t)),
      encode = (\<lambda>img t. case img of IntArray it xs \<Rightarrow> t # map word_of_int xs | FloatArray dt fs \<Rightarrow> [t]),
      csv_reader = map (\<lambda>c. if c = 0 then [''a.tif'', ''la.tif'']
                             else if c = 1 then [''b.tif'', ''lb.tif'']
                             else if c = 2 then [''a.tif'', ''la.tif'', ''x'']
                             else [''a.tif'']),
      text_lines = map (\<lambda>c. if c = 0 then ''a.tif,la.tif\<newline>''
                             else if c = 1 then ''b.tif,lb.tif\<newline>''
                             else if c = 2 then ''a.tif,la.tif,x\<newline>''
                             else ''a.tif\<newline>''),
      numpy_strict = True\<rparr>"

definition mock_gen :: FloodDatasetGenerator where
  "mock_gen = \<lparr>gen_context = [''ctx''], split = ''m.csv''\<rparr>"

definition mock_config :: "bool \<Rightarrow> CustomBuilderConfig" where
  "mock_config nc = \<lparr>no_cache = nc, config_context = [''ctx'']\<rparr>"

definition mock_world :: "bytes \<Rightarrow> world" where
  "mock_world manifest =
     \<lparr>files = map_of
        [([''ctx'', ''m.csv''], manifest),
         ([''ctx''] @ S1 @ [''a.tif''], [7, 1, 2]),
         ([''ctx''] @ LABELS @ [''la.tif''], [7, 255, 0])],
      dirs = {},
      remote = map_of
        [(S1 @ [''a.tif''], [7, 5, 6]),
         (S1 @ [''b.tif''], [7, 3, 4]),
         (LABELS @ [''lb.tif''], [7, 0, 255])],
      reads = []\<rparr>"


section \<open>Properties of the example processor\<close>

lemma finfo_max_ge_50: "50 \<le> finfo_max dt"
proof (cases dt)
  case Float32
  have "(50::real) * 1 \<le> (2 ^ 24 - 1) * 2 ^ 104"
    by (rule mult_mono) simp_all
  then show ?thesis using Float32 by simp
next
  case Float64
  have "(50::real) * 1 \<le> (2 ^ 53 - 1) * 2 ^ 971"
    by (rule mult_mono) simp_all
  then show ?thesis using Float64 by simp
qed

lemma remap_zip:
  "map (\<lambda>(b, x). if b then v else x) (zip (map (\<lambda>x. x = c) xs) xs) =
     map (\<lambda>x. if x = c then v else x) xs"
  by (simp add: zip_map1 zip_same_conv_map)

lemma process_mask_int:
  "iinfo_min t \<le> 255 \<Longrightarrow> 255 \<le> iinfo_max t \<Longrightarrow>
     process_mask strict (IntArray t xs) =
       Inr (IntArray t (map (\<lambda>x. if x = - 1 then 255 else x) xs))"
  by (simp add: process_mask_def remap_zip)

lemma process_mask_float:
  "process_mask strict (FloatArray dt fs) =
     Inr (FloatArray dt (map (\<lambda>x. if x = Finite (- 1) then Finite 255 else x) fs))"
  by (simp add: process_mask_def remap_zip)

lemma process_mask_int8_strict: "process_mask True (IntArray Int8 xs) = Inl OverflowError"
  by (simp add: process_mask_def)

lemma process_mask_int8_wrap: "process_mask False (IntArray Int8 xs) = Inr (IntArray Int8 xs)"
proof -
  have "wrap_int Int8 255 = - 1"
    by (simp add: wrap_int_def)
  then have "process_mask False (IntArray Int8 xs) =
      Inr (IntArray Int8 (map (\<lambda>x. if x = - 1 then - 1 else x) xs))"
    by (simp add: process_mask_def remap_zip)
  also have "map (\<lambda>x. if x = - 1 then - 1 else x) xs = xs"
    by (induction xs) simp_all
  finally show ?thesis .
qed

lemma can_store_255: "t \<noteq> Int8 \<Longrightarrow> iinfo_min t \<le> 255 \<and> 255 \<le> iinfo_max t"
  by (cases t) simp_all

lemma process_mask_can_store:
  "can_store a 255 \<Longrightarrow> \<exists>r. process_mask strict a = Inr r"
  by (cases a) (simp_all add: process_mask_int process_mask_float)

text \<open>
  Claim C8, as amended. For every mask whose dtype can hold 255, that is every
  floating-point mask and every integer mask of a dtype other than int8, mask remapping
  replaces every element equal to -1 by 255 and leaves every other element as it is:
  the result has the length of the input and, at every index, the output element is 255
  where the input element was -1 and the input element otherwise. An int8 mask cannot
  hold 255: numpy 2 raises \<open>OverflowError\<close>, and numpy before 2 stores the wrapped value
  -1, which leaves the mask as it was.
\<close>

theorem process_mask_remaps:
  "(t \<noteq> Int8 \<longrightarrow>
      (\<exists>ys. process_mask strict (IntArray t xs) = Inr (IntArray t ys) \<and> length ys = length xs \<and>
         (\<forall>i<length xs. ys ! i = (if xs ! i = - 1 then 255 else xs ! i)))) \<and>
   (\<exists>gs. process_mask strict (FloatArray dt fs) = Inr (FloatArray dt gs) \<and>
      length gs = length fs \<and>
      (\<forall>i<length fs. gs ! i = (if fs ! i = Finite (- 1) then Finite 255 else fs ! i))) \<and>
   process_mask True (IntArray Int8 xs) = Inl OverflowError \<and>
   process_mask False (IntArray Int8 xs) = Inr (IntArray Int8 xs)"
proof (intro conjI impI)
  assume "t \<noteq> Int8"
  then have "process_mask strict (IntArray t xs) =
      Inr (IntArray t (map (\<lambda>x. if x = - 1 then 255 else x) xs))"
    using can_store_255 [of t] by (simp add: process_mask_int)
  then show "\<exists>ys. process_mask strict (IntArray t xs) = Inr (IntArray t ys) \<and>
      length ys = length xs \<and>
      (\<forall>i<length xs. ys ! i = (if xs ! i = - 1 then 255 else xs ! i))"
    by simp
next
  show "\<exists>gs. process_mask strict (FloatArray dt fs) = Inr (FloatArray dt gs) \<and>
      length gs = length fs \<and>
      (\<forall>i<length fs. gs ! i = (if fs ! i = Finite (- 1) then Finite 255 else fs ! i))"
    by (simp add: process_mask_float)
next
  show "process_mask True (IntArray Int8 xs) = Inl OverflowError"
    by (rule process_mask_int8_strict)
next
  show "process_mask False (IntArray Int8 xs) = Inr (IntArray Int8 xs)"
    by (rule process_mask_int8_wrap)
qed

theorem process_mask_remaps_witness:
  "Int16 \<noteq> Int8 \<and>
   (1::nat) < length [3, - 1, 255, - 2 :: int] \<and>
   process_mask True (IntArray Int16 [3, - 1, 255, - 2]) = Inr (IntArray Int16 [3, 255, 255, - 2]) \<and>
   process_mask True (FloatArray Float32 [Finite (- 1), NaN, Finite 2]) =
     Inr (FloatArray Float32 [Finite 255, NaN, Finite 2]) \<and>
   process_mask True (IntArray Int8 [3, - 1]) = Inl OverflowError \<and>
   process_mask False (IntArray Int8 [3, - 1]) = Inr (IntArray Int8 [3, - 1])"
  using process_mask_remaps [of Int16 True "[3, - 1, 255, - 2]" Float32
      "[Finite (- 1), NaN, Finite 2]"]
    process_mask_remaps [of Int8 True "[3, - 1]" Float32 "[]"]
  by (simp add: process_mask_def)

theorem process_mask_int8_counterexample:
  "process_mask True (IntArray Int8 [- 1, 0]) = Inl OverflowError \<and>
   process_mask False (IntArray Int8 [- 1, 0]) = Inr (IntArray Int8 [- 1, 0]) \<and>
   IntArray Int8 [- 1, 0] \<noteq> IntArray Int8 [255, 0]"
  by (simp add: process_mask_def wrap_int_def)

lemma normalize1:
  "div1 51 (add1 50 (clip1 (- 50) 1 (nan_to_num1 dt x))) =
     (case x of Finite r \<Rightarrow> Finite ((min (max r (- 50)) 1 + 50) / 51)
      | PosInf \<Rightarrow> Finite 1 | NegInf \<Rightarrow> Finite 0 | NaN \<Rightarrow> Finite (50 / 51))"
  using finfo_max_ge_50 [of dt] by (cases x) (simp_all add: min_def max_def)

text \<open>
  Claim C2, as amended. Image normalization maps NaN to 50/51, plus infinity to 1 and
  minus infinity to 0, and a finite value \<open>r\<close> to \<open>(clip r + 50) / 51\<close> with the clip to
  \<open>[-50, 1]\<close>; so -100 gives 0 and +10 gives 1. Only NaN is treated as zero: an infinity is
  replaced by the largest finite value of its sign and then clipped.
\<close>

theorem process_image_normalizes:
  "(\<exists>ys. process_image (FloatArray dt xs) = FloatArray dt ys \<and> length ys = length xs \<and>
      (\<forall>i<length xs. ys ! i =
         (case xs ! i of Finite r \<Rightarrow> Finite ((min (max r (- 50)) 1 + 50) / 51)
          | PosInf \<Rightarrow> Finite 1 | NegInf \<Rightarrow> Finite 0 | NaN \<Rightarrow> Finite (50 / 51)))) \<and>
   process_image (FloatArray dt [Finite (- 100), Finite 10, NaN]) =
     FloatArray dt [Finite 0, Finite 1, Finite (50 / 51)]"
  by (simp add: process_image_def normalize1 [simplified] o_def)


theorem process_image_normalizes_witness:
  "(0::nat) < length [PosInf, Finite (- 100)] \<and>
   process_image (FloatArray Float64 [PosInf, Finite (- 100)]) = FloatArray Float64 [Finite 1, Finite 0] \<and>
   process_image (FloatArray Float64 [Finite (- 100), Finite 10, NaN]) =
     FloatArray Float64 [Finite 0, Finite 1, Finite (50 / 51)]"
  using process_image_normalizes [of Float64 "[PosInf, Finite (- 100)]"]
  by (simp add: process_image_def)

theorem process_image_infinity_counterexample:
  "process_image (FloatArray Float32 [PosInf, NegInf]) = FloatArray Float32 [Finite 1, Finite 0] \<and>
   process_image (FloatArray Float32 [PosInf, NegInf]) \<noteq>
     FloatArray Float32 [Finite (50 / 51), Finite (50 / 51)]"
  by (simp add: process_image_def)

text \<open>
  Claim C10. Whenever mask remapping returns, it returns the reference it was given,
  allocates no object for its result, rewrites the content of that object and touches no
  other object; it returns for every mask whose dtype can hold 255, and when it raises
  instead the store is left as it was. Image normalization, called on an object in use,
  returns a reference that was not in use before the call and leaves every object that
  was in use, its argument among them, unchanged.
\<close>

theorem processors_aliasing:
  "(\<forall>a. process_mask strict (cells s m) = Inr a \<longrightarrow>
      (case process_mask_obj strict m s of (r, s') \<Rightarrow>
         r = Inr m \<and> cells s' m = a \<and> nalloc s' = nalloc s \<and>
         (\<forall>q. q \<noteq> m \<longrightarrow> cells s' q = cells s q))) \<and>
   (can_store (cells s m) 255 \<longrightarrow> (\<exists>a. process_mask strict (cells s m) = Inr a)) \<and>
   (\<forall>e. process_mask strict (cells s m) = Inl e \<longrightarrow> process_mask_obj strict m s = (Inl e, s)) \<and>
   (m < nalloc s \<longrightarrow>
      (case process_image_obj m s of (r, s') \<Rightarrow>
         nalloc s \<le> r \<and> r < nalloc s' \<and> cells s' r = process_image (cells s m) \<and>
         (\<forall>q<nalloc s. cells s' q = cells s q)))"
proof (intro conjI impI allI)
  show "case process_mask_obj strict m s of (r, s') \<Rightarrow>
         r = Inr m \<and> cells s' m = a \<and> nalloc s' = nalloc s \<and>
         (\<forall>q. q \<noteq> m \<longrightarrow> cells s' q = cells s q)"
    if "process_mask strict (cells s m) = Inr a" for a
    using that by (simp add: process_mask_obj_def process_mask_def)
  show "\<exists>a. process_mask strict (cells s m) = Inr a" if "can_store (cells s m) 255"
    using that by (rule process_mask_can_store)
  show "process_mask_obj strict m s = (Inl e, s)"
    if "process_mask strict (cells s m) = Inl e" for e
    using that by (simp add: process_mask_obj_def process_mask_def)
  show "case process_image_obj m s of (r, s') \<Rightarrow>
         nalloc s \<le> r \<and> r < nalloc s' \<and> cells s' r = process_image (cells s m) \<and>
         (\<forall>q<nalloc s. cells s' q = cells s q)"
    if "m < nalloc s"
    using that by (simp add: process_image_obj_def process_image_def alloc_def Let_def)
qed

theorem processors_aliasing_witness:
  "(0::nat) < nalloc \<lparr>cells = (\<lambda>_. IntArray Int16 [- 1, 7]), nalloc = 1\<rparr> \<and>
   (0::nat) \<noteq> 1 \<and>
   can_store (IntArray Int16 [- 1, 7]) 255 \<and>
   process_mask True (IntArray Int16 [- 1, 7]) = Inr (IntArray Int16 [255, 7]) \<and>
   process_mask_obj True 0 \<lparr>cells = (\<lambda>_. IntArray Int16 [- 1, 7]), nalloc = 1\<rparr> =
     (Inr 0, \<lparr>cells = (\<lambda>_. IntArray Int16 [- 1, 7])(0 := IntArray Int16 [255, 7]), nalloc = 1\<rparr>) \<and>
   process_mask True (IntArray Int8 [- 1, 7]) = Inl OverflowError \<and>
   process_mask_obj True 0 \<lparr>cells = (\<lambda>_. IntArray Int8 [- 1, 7]), nalloc = 1\<rparr> =
     (Inl OverflowError, \<lparr>cells = (\<lambda>_. IntArray Int8 [- 1, 7]), nalloc = 1\<rparr>) \<and>
   fst (process_image_obj 0 \<lparr>cells = (\<lambda>_. IntArray Int16 [- 1, 7]), nalloc = 1\<rparr>) = 4 \<and>
   cells (snd (process_image_obj 0 \<lparr>cells = (\<lambda>_. IntArray Int16 [- 1, 7]), nalloc = 1\<rparr>)) 0 =
     IntArray Int16 [- 1, 7] \<and>
   cells (snd (process_image_obj 0 \<lparr>cells = (\<lambda>_. IntArray Int16 [- 1, 7]), nalloc = 1\<rparr>)) 4 =
     FloatArray Float64 [Finite (49 / 51), Finite 1]"
  using processors_aliasing [of True "\<lparr>cells = (\<lambda>_. IntArray Int16 [- 1, 7]), nalloc = 1\<rparr>" 0]
    processors_aliasing [of True "\<lparr>cells = (\<lambda>_. IntArray Int8 [- 1, 7]), nalloc = 1\<rparr>" 0]
  by (simp add: process_mask_obj_def process_mask_def process_image_obj_def process_image_def
        alloc_def Let_def wrap_int_def)

section \<open>Properties of file resolution\<close>

lemma load_image_local:
  "files w (gen_context self @ d @ [n]) = Some b \<Longrightarrow>
     load_image lb self d n stream stream_cache w = (rasterio_read lb b, w)"
  by (simp add: load_image_def is_file_def)

lemma load_image_no_stream:
  "files w (gen_context self @ d @ [n]) = None \<Longrightarrow>
     load_image lb self d n False stream_cache w =
       (Inl (RuntimeError (''File not accessible: '' @ render (gen_context self @ d @ [n]))), w)"
  by (simp add: load_image_def is_file_def)

lemma load_image_fetch:
  "files w (gen_context self @ d @ [n]) = None \<Longrightarrow>
     load_image lb self d n True stream_cache w =
       (case remote w (d @ [n]) of
          None \<Rightarrow> (Inl (RemoteFetchError (d @ [n])), w\<lparr>reads := reads w @ [d @ [n]]\<rparr>)
        | Some b \<Rightarrow>
            (case decode lb b of
               None \<Rightarrow> (Inl RasterioIOError, w\<lparr>reads := reads w @ [d @ [n]]\<rparr>)
             | Some (img, prof) \<Rightarrow>
                 (Inr img,
                  if stream_cache then
                    w\<lparr>reads := reads w @ [d @ [n]],
                      dirs := dirs w \<union> set (path_prefixes (gen_context self @ d)),
                      files := (files w)(gen_context self @ d @ [n] \<mapsto> b)\<rparr>
                  else w\<lparr>reads := reads w @ [d @ [n]]\<rparr>)))"
  by (simp add: load_image_def is_file_def read_bytes_def write_file_def mkdir_parents_def Let_def
        butlast_append split: option.splits)

lemma load_input_local:
  "files w (config_context cfg @ d @ [n]) = Some b \<Longrightarrow>
     load_input lb cfg d n False w = (rasterio_read lb b, w)"
  by (simp add: load_input_def is_file_def)

lemma load_input_no_cache:
  "load_input lb cfg d n True w =
     (case remote w (d @ [n]) of
        None \<Rightarrow> (Inl (RemoteFetchError (d @ [n])), w\<lparr>reads := reads w @ [d @ [n]]\<rparr>)
      | Some b \<Rightarrow> (rasterio_read lb b, w\<lparr>reads := reads w @ [d @ [n]]\<rparr>))"
  by (simp add: load_input_def read_bytes_def Let_def split: option.splits)

lemma load_input_fetch:
  "files w (config_context cfg @ d @ [n]) = None \<Longrightarrow>
     load_input lb cfg d n False w =
       (case remote w (d @ [n]) of
          None \<Rightarrow>
            (Inl (RemoteFetchError (d @ [n])),
             w\<lparr>dirs := dirs w \<union> set (path_prefixes (config_context cfg @ d)),
               reads := reads w @ [d @ [n]]\<rparr>)
        | Some b \<Rightarrow>
            (case decode lb b of
               None \<Rightarrow>
                 (Inl RasterioIOError,
                  w\<lparr>dirs := dirs w \<union> set (path_prefixes (config_context cfg @ d)),
                    reads := reads w @ [d @ [n]]\<rparr>)
             | Some (img, prof) \<Rightarrow>
                 (Inr img,
                  w\<lparr>dirs := dirs w \<union> set (path_prefixes (config_context cfg @ d)),
                    reads := reads w @ [d @ [n]],
                    files := (files w)(config_context cfg @ d @ [n] \<mapsto> encode lb img prof)\<rparr>)))"
  by (simp add: load_input_def is_file_def read_bytes_def write_file_def mkdir_parents_def
        butlast_append split: option.splits)


text \<open>
  Claim C1, as amended. When the local cache path of a reference exists, the standalone
  resolver, for every value of \<open>stream\<close> and \<open>stream_cache\<close>, and the framework resolver
  with \<open>no_cache\<close> false read the local file and leave the state, and with it the log of
  remote reads, unchanged. The framework resolver with \<open>no_cache\<close> true calls
  \<open>read_bytes\<close> on the remote path all the same, and its result is what the remote store
  gives: the decoding of the fetched bytes, or the error of the fetch.
\<close>

theorem local_cache_precedence:
  assumes "files w (gen_context self @ d @ [n]) = Some b"
    and "config_context cfg = gen_context self"
  shows "load_image lb self d n stream stream_cache w = (rasterio_read lb b, w) \<and>
         load_input lb cfg d n False w = (rasterio_read lb b, w) \<and>
         reads (snd (load_input lb cfg d n True w)) = reads w @ [d @ [n]] \<and>
         load_input lb cfg d n True w =
           (case remote w (d @ [n]) of
              None \<Rightarrow> (Inl (RemoteFetchError (d @ [n])), w\<lparr>reads := reads w @ [d @ [n]]\<rparr>)
            | Some r \<Rightarrow> (rasterio_read lb r, w\<lparr>reads := reads w @ [d @ [n]]\<rparr>))"
  using assms
  by (simp add: load_image_local load_input_local load_input_no_cache split: option.splits)

theorem local_cache_precedence_witness:
  "files (mock_world []) (gen_context mock_gen @ S1 @ [''a.tif'']) = Some [7, 1, 2] \<and>
   config_context (mock_config False) = gen_context mock_gen \<and>
   load_image mock_libs mock_gen S1 ''a.tif'' True True (mock_world []) =
     (Inr (IntArray Int16 [1, 2]), mock_world []) \<and>
   load_input mock_libs (mock_config False) S1 ''a.tif'' False (mock_world []) =
     (Inr (IntArray Int16 [1, 2]), mock_world []) \<and>
   reads (snd (load_input mock_libs (mock_config False) S1 ''a.tif'' True (mock_world []))) =
     [S1 @ [''a.tif'']] \<and>
   fst (load_input mock_libs (mock_config False) S1 ''a.tif'' True (mock_world [])) =
     Inr (IntArray Int16 [5, 6])"
proof -
  have f: "files (mock_world []) (gen_context mock_gen @ S1 @ [''a.tif'']) = Some [7, 1, 2]"
    by (simp add: mock_world_def mock_gen_def S1_def)
  have c: "config_context (mock_config False) = gen_context mock_gen"
    by (simp add: mock_config_def mock_gen_def)
  have r: "rasterio_read mock_libs [7, 1, 2] = Inr (IntArray Int16 [1, 2])"
    by (simp add: rasterio_read_def mock_libs_def)
  have e: "reads (mock_world []) = []"
    by (simp add: mock_world_def)
  have m: "remote (mock_world []) (S1 @ [''a.tif'']) = Some [7, 5, 6]"
    by (simp add: mock_world_def S1_def LABELS_def)
  have r2: "rasterio_read mock_libs [7, 5, 6] = Inr (IntArray Int16 [5, 6])"
    by (simp add: rasterio_read_def mock_libs_def)
  note t = local_cache_precedence [OF f c, of mock_libs True True]
  have t1: "load_image mock_libs mock_gen S1 ''a.tif'' True True (mock_world []) =
     (Inr (IntArray Int16 [1, 2]), mock_world [])"
    using conjunct1 [OF t] by (simp add: r)
  have t2: "load_input mock_libs (mock_config False) S1 ''a.tif'' False (mock_world []) =
     (Inr (IntArray Int16 [1, 2]), mock_world [])"
    using conjunct1 [OF conjunct2 [OF t]] by (simp add: r)
  have t3: "reads (snd (load_input mock_libs (mock_config False) S1 ''a.tif'' True (mock_world []))) =
     [S1 @ [''a.tif'']]"
    using conjunct1 [OF conjunct2 [OF conjunct2 [OF t]]] by (simp add: e)
  have t4: "fst (load_input mock_libs (mock_config False) S1 ''a.tif'' True (mock_world [])) =
     Inr (IntArray Int16 [5, 6])"
    by (simp add: conjunct2 [OF conjunct2 [OF conjunct2 [OF t]]] m r2)
  show ?thesis
    by (intro conjI f c t1 t2 t3 t4)
qed

theorem no_cache_bypasses_local_counterexample:
  "files (mock_world []) (config_context (mock_config True) @ S1 @ [''a.tif'']) = Some [7, 1, 2] \<and>
   rasterio_read mock_libs [7, 1, 2] = Inr (IntArray Int16 [1, 2]) \<and>
   fst (load_input mock_libs (mock_config True) S1 ''a.tif'' (no_cache (mock_config True))
          (mock_world [])) = Inr (IntArray Int16 [5, 6]) \<and>
   reads (mock_world []) = [] \<and>
   reads (snd (load_input mock_libs (mock_config True) S1 ''a.tif'' (no_cache (mock_config True))
                 (mock_world []))) = [S1 @ [''a.tif'']]"
  by (simp add: load_input_no_cache mock_world_def mock_config_def S1_def rasterio_read_def
        mock_libs_def)

lemma twice_load_image_reads:
  assumes "files w (gen_context self @ d @ [n]) = None"
  shows "reads (snd (twice (load_image lb self d n True True) w)) = reads w @ [d @ [n]]"
proof (cases "remote w (d @ [n])")
  case None
  with assms show ?thesis by (simp add: twice_def load_image_fetch)
next
  case (Some b)
  show ?thesis
  proof (cases "decode lb b")
    case None
    with Some assms show ?thesis by (simp add: twice_def load_image_fetch)
  next
    case (Some ip)
    obtain img prof where ip: "ip = (img, prof)" by (cases ip)
    from assms \<open>remote w (d @ [n]) = Some b\<close> Some ip show ?thesis
      by (simp add: twice_def load_image_fetch load_image_local rasterio_read_def)
  qed
qed

lemma twice_load_input_reads:
  assumes "files w (config_context cfg @ d @ [n]) = None"
  shows "reads (snd (twice (load_input lb cfg d n False) w)) = reads w @ [d @ [n]]"
proof (cases "remote w (d @ [n])")
  case None
  with assms show ?thesis by (simp add: twice_def load_input_fetch)
next
  case (Some b)
  show ?thesis
  proof (cases "decode lb b")
    case None
    with Some assms show ?thesis by (simp add: twice_def load_input_fetch)
  next
    case (Some ip)
    obtain img prof where ip: "ip = (img, prof)" by (cases ip)
    from assms \<open>remote w (d @ [n]) = Some b\<close> Some ip show ?thesis
      by (simp add: twice_def load_input_fetch load_input_local rasterio_read_def
            split: option.splits)
  qed
qed

lemma load_image_twice_fetch:
  assumes "files w (gen_context self @ d @ [n]) = None"
    and "remote w (d @ [n]) = Some b"
    and "decode lb b = Some (img, prof)"
  shows "\<exists>w1. load_image lb self d n True True w = (Inr img, w1) \<and>
           files w1 (gen_context self @ d @ [n]) = Some b \<and>
           reads w1 = reads w @ [d @ [n]] \<and>
           load_image lb self d n True True w1 = (Inr img, w1) \<and>
           twice (load_image lb self d n True True) w = (Inr (img, img), w1)"
proof -
  define w1 where "w1 = w\<lparr>reads := reads w @ [d @ [n]],
      dirs := dirs w \<union> set (path_prefixes (gen_context self @ d)),
      files := (files w)(gen_context self @ d @ [n] \<mapsto> b)\<rparr>"
  have first: "load_image lb self d n True True w = (Inr img, w1)"
    using assms by (simp add: load_image_fetch w1_def)
  have cached: "files w1 (gen_context self @ d @ [n]) = Some b"
    by (simp add: w1_def)
  have log: "reads w1 = reads w @ [d @ [n]]"
    by (simp add: w1_def)
  have second: "load_image lb self d n True True w1 = (Inr img, w1)"
    using load_image_local [OF cached, of lb True True] assms(3) by (simp add: rasterio_read_def)
  have "twice (load_image lb self d n True True) w = (Inr (img, img), w1)"
    by (simp add: twice_def first second)
  with first cached log second show ?thesis by blast
qed

lemma load_input_twice_fetch:
  assumes "files w (config_context cfg @ d @ [n]) = None"
    and "remote w (d @ [n]) = Some b"
    and "decode lb b = Some (img, prof)"
  shows "\<exists>w2. load_input lb cfg d n False w = (Inr img, w2) \<and>
           files w2 (config_context cfg @ d @ [n]) = Some (encode lb img prof) \<and>
           reads w2 = reads w @ [d @ [n]] \<and>
           load_input lb cfg d n False w2 = (rasterio_read lb (encode lb img prof), w2) \<and>
           twice (load_input lb cfg d n False) w =
             (case rasterio_read lb (encode lb img prof) of
                Inl e \<Rightarrow> (Inl e, w2)
              | Inr img2 \<Rightarrow> (Inr (img, img2), w2))"
proof -
  define w2 where "w2 = w\<lparr>dirs := dirs w \<union> set (path_prefixes (config_context cfg @ d)),
      reads := reads w @ [d @ [n]],
      files := (files w)(config_context cfg @ d @ [n] \<mapsto> encode lb img prof)\<rparr>"
  have first: "load_input lb cfg d n False w = (Inr img, w2)"
    using assms by (simp add: load_input_fetch w2_def)
  have cached: "files w2 (config_context cfg @ d @ [n]) = Some (encode lb img prof)"
    by (simp add: w2_def)
  have log: "reads w2 = reads w @ [d @ [n]]"
    by (simp add: w2_def)
  have second: "load_input lb cfg d n False w2 = (rasterio_read lb (encode lb img prof), w2)"
    by (rule load_input_local [OF cached])
  have "twice (load_input lb cfg d n False) w =
      (case rasterio_read lb (encode lb img prof) of
         Inl e \<Rightarrow> (Inl e, w2)
       | Inr img2 \<Rightarrow> (Inr (img, img2), w2))"
    by (simp add: twice_def first second split: sum.splits)
  with first cached log second show ?thesis by blast
qed

text \<open>
  Claim C4. Take a reference that is not cached, in a state where its cache file can be
  written: no prefix of the parent directory of the cache path is a regular file and
  the cache path is not a directory. Two resolutions in sequence with remote fetch
  allowed and caching enabled make exactly one \<open>read_bytes\<close> call, in both variants,
  whether or not the fetch succeeds. When the remote store holds bytes for the reference
  that the codec decodes, the first resolution succeeds, returns the decoded image,
  makes the one \<open>read_bytes\<close> call and leaves the cache file behind (the fetched bytes in
  the standalone variant, the re-encoded image in the framework variant); the second
  resolution reads that file, calls the remote store no more and changes nothing. In the
  standalone variant the second resolution returns the same image; in the framework
  variant it returns what the codec reads from the re-encoded file.
\<close>

theorem caching_idempotent:
  assumes "files w (gen_context self @ d @ [n]) = None"
    and "config_context cfg = gen_context self"
    and "list_all (\<lambda>q. files w q = None) (path_prefixes (gen_context self @ d))"
    and "gen_context self @ d @ [n] \<notin> dirs w"
  shows "reads (snd (twice (load_image lb self d n True True) w)) = reads w @ [d @ [n]] \<and>
         reads (snd (twice (load_input lb cfg d n False) w)) = reads w @ [d @ [n]] \<and>
         (\<forall>b img prof. remote w (d @ [n]) = Some b \<and> decode lb b = Some (img, prof) \<longrightarrow>
            (\<exists>w1. load_image lb self d n True True w = (Inr img, w1) \<and>
               files w1 (gen_context self @ d @ [n]) = Some b \<and>
               reads w1 = reads w @ [d @ [n]] \<and>
               load_image lb self d n True True w1 = (Inr img, w1) \<and>
               twice (load_image lb self d n True True) w = (Inr (img, img), w1)) \<and>
            (\<exists>w2. load_input lb cfg d n False w = (Inr img, w2) \<and>
               files w2 (config_context cfg @ d @ [n]) = Some (encode lb img prof) \<and>
               reads w2 = reads w @ [d @ [n]] \<and>
               load_input lb cfg d n False w2 = (rasterio_read lb (encode lb img prof), w2) \<and>
               twice (load_input lb cfg d n False) w =
                 (case rasterio_read lb (encode lb img prof) of
                    Inl e \<Rightarrow> (Inl e, w2)
                  | Inr img2 \<Rightarrow> (Inr (img, img2), w2))))"
proof (intro conjI allI impI)
  have c: "files w (config_context cfg @ d @ [n]) = None"
    using assms by simp
  show "reads (snd (twice (load_image lb self d n True True) w)) = reads w @ [d @ [n]]"
    by (rule twice_load_image_reads [OF assms(1)])
  show "reads (snd (twice (load_input lb cfg d n False) w)) = reads w @ [d @ [n]]"
    by (rule twice_load_input_reads [OF c])
  fix b img prof
  assume h: "remote w (d @ [n]) = Some b \<and> decode lb b = Some (img, prof)"
  then have r: "remote w (d @ [n]) = Some b" and dc: "decode lb b = Some (img, prof)"
    by simp_all
  show "\<exists>w1. load_image lb self d n True True w = (Inr img, w1) \<and>
               files w1 (gen_context self @ d @ [n]) = Some b \<and>
               reads w1 = reads w @ [d @ [n]] \<and>
               load_image lb self d n True True w1 = (Inr img, w1) \<and>
               twice (load_image lb self d n True True) w = (Inr (img, img), w1)"
    by (rule load_image_twice_fetch [OF assms(1) r dc])
  show "\<exists>w2. load_input lb cfg d n False w = (Inr img, w2) \<and>
               files w2 (config_context cfg @ d @ [n]) = Some (encode lb img prof) \<and>
               reads w2 = reads w @ [d @ [n]] \<and>
               load_input lb cfg d n False w2 = (rasterio_read lb (encode lb img prof), w2) \<and>
               twice (load_input lb cfg d n False) w =
                 (case rasterio_read lb (encode lb img prof) of
                    Inl e \<Rightarrow> (Inl e, w2)
                  | Inr img2 \<Rightarrow> (Inr (img, img2), w2))"
    by (rule load_input_twice_fetch [OF c r dc])
qed

text \<open>
  Claim C5. For a reference whose local cache path does not exist, the standalone
  resolver with \<open>stream\<close> false raises the error whose message is
  \<open>File not accessible:\<close> followed by the local path, and leaves the state unchanged: no
  file or directory is written and the remote store is not called.
\<close>

theorem missing_without_remote:
  assumes "files w (gen_context self @ d @ [n]) = None"
  shows "load_image lb self d n False stream_cache w =
           (Inl (RuntimeError (''File not accessible: '' @ render (gen_context self @ d @ [n]))), w)"
  using assms by (rule load_image_no_stream)

lemma take_in_path_prefixes: "take k p \<in> set (path_prefixes p)"
proof (induction p arbitrary: k)
  case Nil
  show ?case by simp
next
  case (Cons c cs)
  show ?case
  proof (cases k)
    case 0
    then show ?thesis by simp
  next
    case (Suc j)
    have "take j cs \<in> set (path_prefixes cs)" by (rule Cons.IH)
    then show ?thesis using Suc by simp
  qed
qed

text \<open>
  Claim C7. On a remote fetch with caching enabled, of bytes that the codec decodes to an
  image and a profile, the standalone variant writes the fetched bytes unchanged to the local
  cache path and the framework variant writes the image re-encoded under that profile;
  both create the parent directory of the cache path together with every ancestor of it.
\<close>

theorem cache_write_content:
  assumes "files w (gen_context self @ d @ [n]) = None"
    and "config_context cfg = gen_context self"
    and "remote w (d @ [n]) = Some b"
    and "decode lb b = Some (img, prof)"
  shows "load_image lb self d n True True w =
           (Inr img,
            w\<lparr>reads := reads w @ [d @ [n]],
              dirs := dirs w \<union> set (path_prefixes (gen_context self @ d)),
              files := (files w)(gen_context self @ d @ [n] \<mapsto> b)\<rparr>) \<and>
         load_input lb cfg d n False w =
           (Inr img,
            w\<lparr>dirs := dirs w \<union> set (path_prefixes (gen_context self @ d)),
              reads := reads w @ [d @ [n]],
              files := (files w)(gen_context self @ d @ [n] \<mapsto> encode lb img prof)\<rparr>) \<and>
         (\<forall>k. take k (gen_context self @ d) \<in> set (path_prefixes (gen_context self @ d)))"
proof (intro conjI allI)
  show "load_image lb self d n True True w =
           (Inr img,
            w\<lparr>reads := reads w @ [d @ [n]],
              dirs := dirs w \<union> set (path_prefixes (gen_context self @ d)),
              files := (files w)(gen_context self @ d @ [n] \<mapsto> b)\<rparr>)"
    using assms by (simp add: load_image_fetch)
  show "load_input lb cfg d n False w =
           (Inr img,
            w\<lparr>dirs := dirs w \<union> set (path_prefixes (gen_context self @ d)),
              reads := reads w @ [d @ [n]],
              files := (files w)(gen_context self @ d @ [n] \<mapsto> encode lb img prof)\<rparr>)"
    using assms by (simp add: load_input_fetch)
  show "take k (gen_context self @ d) \<in> set (path_prefixes (gen_context self @ d))" for k
    by (rule take_in_path_prefixes)
qed

theorem cache_write_content_witness:
  "files (mock_world []) (gen_context mock_gen @ S1 @ [''b.tif'']) = None \<and>
   config_context (mock_config False) = gen_context mock_gen \<and>
   remote (mock_world []) (S1 @ [''b.tif'']) = Some [7, 3, 4] \<and>
   decode mock_libs [7, 3, 4] = Some (IntArray Int16 [3, 4], 7) \<and>
   files (snd (load_image mock_libs mock_gen S1 ''b.tif'' True True (mock_world [])))
     ([''ctx''] @ S1 @ [''b.tif'']) = Some [7, 3, 4] \<and>
   files (snd (load_input mock_libs (mock_config False) S1 ''b.tif'' False (mock_world [])))
     ([''ctx''] @ S1 @ [''b.tif'']) = Some (encode mock_libs (IntArray Int16 [3, 4]) 7) \<and>
   [''ctx'', ''v1.1''] \<in> dirs (snd (load_input mock_libs (mock_config False) S1 ''b.tif'' False (mock_world [])))"
proof -
  have f: "files (mock_world []) (gen_context mock_gen @ S1 @ [''b.tif'']) = None"
    by (simp add: mock_world_def mock_gen_def S1_def LABELS_def)
  have c: "config_context (mock_config False) = gen_context mock_gen"
    by (simp add: mock_config_def mock_gen_def)
  have r: "remote (mock_world []) (S1 @ [''b.tif'']) = Some [7, 3, 4]"
    by (simp add: mock_world_def S1_def LABELS_def)
  have d: "decode mock_libs [7, 3, 4] = Some (IntArray Int16 [3, 4], 7)"
    by (simp add: mock_libs_def)
  have g: "gen_context mock_gen = [''ctx'']"
    by (simp add: mock_gen_def)
  have p: "[''ctx'', ''v1.1''] \<in> set (path_prefixes ([''ctx''] @ S1))"
    by (simp add: S1_def)
  show ?thesis
    using cache_write_content [OF f c r d] f c r d p by (simp add: g)
qed

theorem missing_without_remote_witness:
  "files (mock_world []) (gen_context mock_gen @ S1 @ [''b.tif'']) = None \<and>
   load_image mock_libs mock_gen S1 ''b.tif'' False True (mock_world []) =
     (Inl (RuntimeError ''File not accessible: /ctx/v1.1/data/flood_events/HandLabeled/S1Hand/b.tif''),
      mock_world [])"
proof -
  have f: "files (mock_world []) (gen_context mock_gen @ S1 @ [''b.tif'']) = None"
    by (simp add: mock_world_def mock_gen_def S1_def LABELS_def)
  have r: "render (gen_context mock_gen @ S1 @ [''b.tif'']) =
             ''/ctx/v1.1/data/flood_events/HandLabeled/S1Hand/b.tif''"
    by (simp add: render_def mock_gen_def S1_def)
  show ?thesis
    using missing_without_remote [OF f, of mock_libs True] f r by simp
qed

theorem caching_idempotent_witness:
  "files (mock_world []) (gen_context mock_gen @ S1 @ [''b.tif'']) = None \<and>
   config_context (mock_config False) = gen_context mock_gen \<and>
   list_all (\<lambda>q. files (mock_world []) q = None) (path_prefixes (gen_context mock_gen @ S1)) \<and>
   gen_context mock_gen @ S1 @ [''b.tif''] \<notin> dirs (mock_world []) \<and>
   remote (mock_world []) (S1 @ [''b.tif'']) = Some [7, 3, 4] \<and>
   decode mock_libs [7, 3, 4] = Some (IntArray Int16 [3, 4], 7) \<and>
   encode mock_libs (IntArray Int16 [3, 4]) 7 = [7, 3, 4] \<and>
   fst (twice (load_image mock_libs mock_gen S1 ''b.tif'' True True) (mock_world [])) =
     Inr (IntArray Int16 [3, 4], IntArray Int16 [3, 4]) \<and>
   files (snd (twice (load_image mock_libs mock_gen S1 ''b.tif'' True True) (mock_world [])))
     (gen_context mock_gen @ S1 @ [''b.tif'']) = Some [7, 3, 4] \<and>
   reads (snd (twice (load_image mock_libs mock_gen S1 ''b.tif'' True True) (mock_world []))) =
     [S1 @ [''b.tif'']] \<and>
   fst (twice (load_input mock_libs (mock_config False) S1 ''b.tif'' False) (mock_world [])) =
     Inr (IntArray Int16 [3, 4], IntArray Int16 [3, 4]) \<and>
   files (snd (twice (load_input mock_libs (mock_config False) S1 ''b.tif'' False) (mock_world [])))
     (config_context (mock_config False) @ S1 @ [''b.tif'']) = Some [7, 3, 4] \<and>
   reads (snd (twice (load_input mock_libs (mock_config False) S1 ''b.tif'' False) (mock_world []))) =
     [S1 @ [''b.tif'']]"
proof -
  have f: "files (mock_world []) (gen_context mock_gen @ S1 @ [''b.tif'']) = None"
    by (simp add: mock_world_def mock_gen_def S1_def LABELS_def)
  have c: "config_context (mock_config False) = gen_context mock_gen"
    by (simp add: mock_config_def mock_gen_def)
  have p: "list_all (\<lambda>q. files (mock_world []) q = None) (path_prefixes (gen_context mock_gen @ S1))"
    by (simp add: mock_world_def mock_gen_def S1_def LABELS_def)
  have t: "gen_context mock_gen @ S1 @ [''b.tif''] \<notin> dirs (mock_world [])"
    by (simp add: mock_world_def)
  have r: "remote (mock_world []) (S1 @ [''b.tif'']) = Some [7, 3, 4]"
    by (simp add: mock_world_def S1_def LABELS_def)
  have d: "decode mock_libs [7, 3, 4] = Some (IntArray Int16 [3, 4], 7)"
    by (simp add: mock_libs_def)
  have e: "encode mock_libs (IntArray Int16 [3, 4]) 7 = [7, 3, 4]"
    by (simp add: mock_libs_def)
  have z: "reads (mock_world []) = []"
    by (simp add: mock_world_def)
  have rr: "rasterio_read mock_libs [7, 3, 4] = Inr (IntArray Int16 [3, 4])"
    by (simp add: rasterio_read_def d)
  note m = caching_idempotent [OF f c p t, of mock_libs]
  note ok = mp [OF spec [OF spec [OF spec [OF conjunct2 [OF conjunct2 [OF m]]]]] conjI [OF r d]]
  from conjunct1 [OF ok] obtain w1 where
    a1: "files w1 (gen_context mock_gen @ S1 @ [''b.tif'']) = Some [7, 3, 4]"
    and a2: "reads w1 = reads (mock_world []) @ [S1 @ [''b.tif'']]"
    and a3: "twice (load_image mock_libs mock_gen S1 ''b.tif'' True True) (mock_world []) =
      (Inr (IntArray Int16 [3, 4], IntArray Int16 [3, 4]), w1)"
    by (elim exE conjE)
  from conjunct2 [OF ok] obtain w2 where
    b1: "files w2 (config_context (mock_config False) @ S1 @ [''b.tif'']) =
      Some (encode mock_libs (IntArray Int16 [3, 4]) 7)"
    and b2: "reads w2 = reads (mock_world []) @ [S1 @ [''b.tif'']]"
    and b3: "twice (load_input mock_libs (mock_config False) S1 ''b.tif'' False) (mock_world []) =
      (case rasterio_read mock_libs (encode mock_libs (IntArray Int16 [3, 4]) 7) of
         Inl e \<Rightarrow> (Inl e, w2)
       | Inr img2 \<Rightarrow> (Inr (IntArray Int16 [3, 4], img2), w2))"
    by (elim exE conjE)
  have b4: "twice (load_input mock_libs (mock_config False) S1 ''b.tif'' False) (mock_world []) =
      (Inr (IntArray Int16 [3, 4], IntArray Int16 [3, 4]), w2)"
    using b3 by (simp add: e rr)
  have s1: "fst (twice (load_image mock_libs mock_gen S1 ''b.tif'' True True) (mock_world [])) =
     Inr (IntArray Int16 [3, 4], IntArray Int16 [3, 4])"
    by (simp add: a3)
  have s2: "files (snd (twice (load_image mock_libs mock_gen S1 ''b.tif'' True True) (mock_world [])))
     (gen_context mock_gen @ S1 @ [''b.tif'']) = Some [7, 3, 4]"
    using a1 by (simp add: a3)
  have s3: "reads (snd (twice (load_image mock_libs mock_gen S1 ''b.tif'' True True) (mock_world []))) =
     [S1 @ [''b.tif'']]"
    using a2 by (simp add: a3 z)
  have s4: "fst (twice (load_input mock_libs (mock_config False) S1 ''b.tif'' False) (mock_world [])) =
     Inr (IntArray Int16 [3, 4], IntArray Int16 [3, 4])"
    by (simp add: b4)
  have s5: "files (snd (twice (load_input mock_libs (mock_config False) S1 ''b.tif'' False) (mock_world [])))
     (config_context (mock_config False) @ S1 @ [''b.tif'']) = Some [7, 3, 4]"
    using b1 by (simp add: b4 e)
  have s6: "reads (snd (twice (load_input mock_libs (mock_config False) S1 ''b.tif'' False) (mock_world []))) =
     [S1 @ [''b.tif'']]"
    using b2 by (simp add: b4 z)
  show ?thesis
    by (intro conjI f c p t r d e s1 s2 s3 s4 s5 s6)
qed

section \<open>Properties of the generators\<close>

lemma run_generator_Cons_error:
  "body r w = (Inl e, w1) \<Longrightarrow> run_generator body (r # rs) w = ([], Some e, w1)"
  by simp

lemma run_generator_Cons_yield:
  "body r w = (Inr x, w1) \<Longrightarrow>
     run_generator body (r # rs) w =
       (x # fst (run_generator body rs w1), snd (run_generator body rs w1))"
  by (simp split: prod.splits)

lemma run_generator_length:
  "run_generator body rs w = (xs, res, w') \<Longrightarrow>
     (res = None \<longrightarrow> length xs = length rs) \<and> (res \<noteq> None \<longrightarrow> length xs < length rs)"
proof (induction rs arbitrary: w xs res w')
  case Nil
  then show ?case by simp
next
  case (Cons r rs)
  obtain y w1 where b: "body r w = (y, w1)" by (cases "body r w")
  show ?case
  proof (cases y)
    case (Inl e)
    with b Cons.prems show ?thesis by auto
  next
    case (Inr x)
    obtain xs2 res2 w2 where t: "run_generator body rs w1 = (xs2, res2, w2)"
      by (cases "run_generator body rs w1")
    from Cons.IH [OF t] b Inr t Cons.prems show ?thesis by auto
  qed
qed

lemma run_generator_yields:
  assumes "\<And>r w x w1. body r w = (Inr x, w1) \<Longrightarrow> P x"
  shows "run_generator body rs w = (xs, res, w') \<Longrightarrow> \<forall>x\<in>set xs. P x"
proof (induction rs arbitrary: w xs res w')
  case Nil
  then show ?case by simp
next
  case (Cons r rs)
  obtain y w1 where b: "body r w = (y, w1)" by (cases "body r w")
  show ?case
  proof (cases y)
    case (Inl e)
    with b Cons.prems show ?thesis by simp
  next
    case (Inr x)
    obtain xs2 res2 w2 where t: "run_generator body rs w1 = (xs2, res2, w2)"
      by (cases "run_generator body rs w1")
    have "P x" using assms b Inr by blast
    with Cons.IH [OF t] b Inr t Cons.prems show ?thesis by auto
  qed
qed

lemma run_generator_append:
  "run_generator body (pre @ rest) w =
     (case run_generator body pre w of
        (xs, None, w1) \<Rightarrow>
          (case run_generator body rest w1 of (xs2, res, w2) \<Rightarrow> (xs @ xs2, res, w2))
      | (xs, Some e, w1) \<Rightarrow> (xs, Some e, w1))"
proof (induction pre arbitrary: w)
  case Nil
  show ?case by (simp split: prod.splits)
next
  case (Cons r pre)
  obtain y w1 where b: "body r w = (y, w1)" by (cases "body r w")
  show ?case
  proof (cases y)
    case (Inl e)
    with b show ?thesis by simp
  next
    case (Inr x)
    obtain xs2 res2 w2 where t: "run_generator body pre w1 = (xs2, res2, w2)"
      by (cases "run_generator body pre w1")
    show ?thesis
      using b Inr t Cons.IH [of w1]
      by (cases res2) (simp_all split: prod.splits)
  qed
qed

text \<open>A failing item ends the run: nothing is yielded from it onward.\<close>

lemma run_generator_stops:
  assumes "\<And>w. \<exists>e w1. body bad w = (Inl e, w1)"
  shows "\<exists>xs e w'. run_generator body (pre @ bad # post) w = (xs, Some e, w') \<and>
           length xs \<le> length pre"
proof -
  obtain xs res w1 where t: "run_generator body pre w = (xs, res, w1)"
    by (cases "run_generator body pre w")
  show ?thesis
  proof (cases res)
    case None
    obtain e w2 where "body bad w1 = (Inl e, w2)" using assms by blast
    with t None run_generator_length [OF t] show ?thesis
      by (simp add: run_generator_append)
  next
    case (Some e)
    with t run_generator_length [OF t] show ?thesis
      by (simp add: run_generator_append)
  qed
qed


lemma run_generator_pure:
  assumes "\<forall>r\<in>set rs. \<exists>x. body r w = (Inr x, w)"
  shows "\<exists>xs. run_generator body rs w = (xs, None, w) \<and> length xs = length rs"
  using assms
proof (induction rs)
  case Nil
  show ?case by simp
next
  case (Cons r rs)
  obtain x where b: "body r w = (Inr x, w)" using Cons.prems by auto
  obtain xs where t: "run_generator body rs w = (xs, None, w)" "length xs = length rs"
    using Cons.IH Cons.prems by auto
  show ?case using b t by simp
qed

lemma load_image_readable:
  "readable lb w (gen_context self @ d @ [n]) \<Longrightarrow>
     \<exists>img. load_image lb self d n stream stream_cache w = (Inr img, w)"
  by (auto simp: readable_def load_image_local rasterio_read_def split: option.splits)

lemma load_input_readable:
  "readable lb w (config_context cfg @ d @ [n]) \<Longrightarrow>
     \<exists>img. load_input lb cfg d n False w = (Inr img, w)"
  by (auto simp: readable_def load_input_local rasterio_read_def split: option.splits)

lemma load_input_readable_mask:
  "readable_mask lb w (config_context cfg @ d @ [n]) \<Longrightarrow>
     \<exists>msk. load_input lb cfg d n False w = (Inr msk, w) \<and> can_store msk 255"
  by (auto simp: readable_mask_def load_input_local rasterio_read_def split: option.splits)

lemma unpack2_wrong_count: "length xs \<noteq> 2 \<Longrightarrow> unpack2 xs = Inl ValueError"
  by (cases xs rule: unpack2.cases) simp_all

lemma unpack2_two: "length xs = 2 \<Longrightarrow> unpack2 xs = Inr (xs ! 0, xs ! 1)"
  by (cases xs rule: unpack2.cases) simp_all

subsection \<open>The loop bodies\<close>

lemma call_body_short_row:
  assumes "length row < 2"
  shows "\<exists>e w1. call_body lb self st sc pf row w = (Inl e, w1)"
proof (cases row)
  case Nil
  then show ?thesis by (simp add: call_body_def getitem_def)
next
  case (Cons a as)
  with assms have row: "row = [a]" by simp
  obtain y w1 where l: "load_image lb self S1 a st sc w = (y, w1)"
    by (cases "load_image lb self S1 a st sc w")
  show ?thesis
    using row l by (cases y) (simp_all add: call_body_def getitem_def)
qed

lemma call_body_long_row:
  "2 \<le> length row \<Longrightarrow>
     call_body lb self st sc pf row = call_body lb self st sc pf (take 2 row)"
proof (rule ext)
  fix w
  assume "2 \<le> length row"
  then obtain a b rest where "row = a # b # rest"
    by (cases row; cases "tl row") auto
  then have "getitem row 0 = getitem (take 2 row) 0" "getitem row 1 = getitem (take 2 row) 1"
    by (simp_all add: getitem_def)
  then show "call_body lb self st sc pf row w = call_body lb self st sc pf (take 2 row) w"
    by (simp only: call_body_def)
qed

lemma call_body_keys:
  assumes "call_body lb self st sc None row w = (Inr x, w1)"
  shows "dom x = {''image'', ''mask''}"
proof -
  from assms obtain img msk where "x = [''image'' \<mapsto> img, ''mask'' \<mapsto> msk]"
    by (auto simp: call_body_def split: sum.splits prod.splits)
  then show ?thesis by auto
qed

lemma call_body_readable:
  assumes "length row = 2"
    and "readable lb w (gen_context self @ S1 @ [row ! 0])"
    and "readable lb w (gen_context self @ LABELS @ [row ! 1])"
  shows "\<exists>x. call_body lb self st sc pf row w = (Inr x, w)"
proof -
  obtain img where i: "load_image lb self S1 (row ! 0) st sc w = (Inr img, w)"
    using load_image_readable [OF assms(2)] by blast
  obtain msk where m: "load_image lb self LABELS (row ! 1) st sc w = (Inr msk, w)"
    using load_image_readable [OF assms(3)] by blast
  show ?thesis
    using assms(1) i m by (simp add: call_body_def getitem_def Let_def)
qed

lemma generate_body_wrong_count:
  "length (str_split CHR '','' (strip line)) \<noteq> 2 \<Longrightarrow>
     generate_body lb cfg (idx, line) w = (Inl ValueError, w)"
  by (simp add: generate_body_def unpack2_wrong_count)

lemma generate_body_keys:
  assumes "generate_body lb cfg item w = (Inr x, w1)"
  shows "dom (snd x) = {''image'', ''mask''}"
proof -
  from assms obtain idx img msk where "x = (idx, [''image'' \<mapsto> img, ''mask'' \<mapsto> msk])"
    by (auto simp: generate_body_def Let_def split: sum.splits prod.splits)
  then show ?thesis by auto
qed

lemma generate_body_readable:
  assumes "length (str_split CHR '','' (strip line)) = 2"
    and "no_cache cfg = False"
    and "readable lb w (config_context cfg @ S1 @ [str_split CHR '','' (strip line) ! 0])"
    and "readable_mask lb w (config_context cfg @ LABELS @ [str_split CHR '','' (strip line) ! 1])"
  shows "\<exists>x. generate_body lb cfg (idx, line) w = (Inr x, w)"
proof -
  obtain img where i: "load_input lb cfg S1 (str_split CHR '','' (strip line) ! 0) False w = (Inr img, w)"
    using load_input_readable [OF assms(3)] by blast
  obtain msk where m: "load_input lb cfg LABELS (str_split CHR '','' (strip line) ! 1) False w = (Inr msk, w)"
    and c: "can_store msk 255"
    using load_input_readable_mask [OF assms(4)] by blast
  obtain r where p: "process_mask (numpy_strict lb) msk = Inr r"
    using process_mask_can_store [OF c] by blast
  show ?thesis
    using assms(1,2) i m p by (simp add: generate_body_def unpack2_two Let_def)
qed

subsection \<open>Shuffling and numbering\<close>

lemma mset_shuffle_from:
  "k < length xs \<Longrightarrow> mset (shuffle_from rnd k xs) = mset xs"
proof (induction k arbitrary: xs)
  case 0
  show ?case by simp
next
  case (Suc k)
  have j: "rnd (Suc k) mod (Suc k + 1) < length xs"
  proof -
    have "rnd (Suc k) mod (Suc k + 1) < Suc k + 1" by simp
    with Suc.prems show ?thesis by arith
  qed
  have "mset (xs[Suc k := xs ! (rnd (Suc k) mod (Suc k + 1)),
                 rnd (Suc k) mod (Suc k + 1) := xs ! Suc k]) = mset xs"
    using Suc.prems j by (simp add: mset_swap)
  moreover have "k < length (xs[Suc k := xs ! (rnd (Suc k) mod (Suc k + 1)),
                 rnd (Suc k) mod (Suc k + 1) := xs ! Suc k])"
    using Suc.prems by simp
  ultimately show ?case
    using Suc.IH by (simp add: Let_def)
qed

lemma mset_random_shuffle: "mset (random_shuffle rnd xs) = mset xs"
  by (cases xs) (simp_all add: random_shuffle_def mset_shuffle_from)

lemma mset_visit_order: "mset (visit_order rnd shuffle rows) = mset rows"
  by (simp add: visit_order_def mset_random_shuffle)

lemma length_visit_order: "length (visit_order rnd shuffle rows) = length rows"
  using mset_visit_order [of rnd shuffle rows] by (metis size_mset)

lemma set_visit_order: "set (visit_order rnd shuffle rows) = set rows"
  using mset_visit_order [of rnd shuffle rows] by (metis set_mset_mset)

lemma enumerate_from0_split:
  "\<exists>rest. enumerate_from0 (pre @ bad # post) = enumerate_from0 pre @ (length pre, bad) # rest"
proof -
  have a: "[0..<length pre + Suc (length post)] =
          [0..<length pre] @ [length pre..<length pre + Suc (length post)]"
    using upt_add_eq_append [of 0 "length pre" "Suc (length post)"] by simp
  have b: "[length pre..<length pre + Suc (length post)] =
          length pre # [Suc (length pre)..<length pre + Suc (length post)]"
    by (rule upt_conv_Cons) simp
  have "[0..<length (pre @ bad # post)] =
          [0..<length pre] @ length pre # [Suc (length pre)..<length pre + Suc (length post)]"
    using a b by simp
  then have "enumerate_from0 (pre @ bad # post) =
      enumerate_from0 pre @ (length pre, bad) # zip [Suc (length pre)..<length pre + Suc (length post)] post"
    unfolding enumerate_from0_def by (simp only: zip_append length_upt diff_zero zip_Cons_Cons)
  then show ?thesis by blast
qed

lemma length_enumerate_from0: "length (enumerate_from0 xs) = length xs"
  by (simp add: enumerate_from0_def)

lemma set_enumerate_from0: "(i, x) \<in> set (enumerate_from0 xs) \<Longrightarrow> x \<in> set xs"
  by (auto simp: enumerate_from0_def dest: set_zip_rightD)


lemma run_generator_same_body:
  assumes "body bad = body bad2"
  shows "run_generator body (pre @ bad # post) w = run_generator body (pre @ bad2 # post) w"
proof -
  have "run_generator body (bad # post) w1 = run_generator body (bad2 # post) w1" for w1
    using assms by simp
  then show ?thesis
    by (simp only: run_generator_append)
qed

text \<open>
  Claim C3, as amended. In the framework variant a line whose comma-separated field
  count differs from two ends the iteration with an error and no example is yielded from
  that line onward; when the lines before it were processed without error the error is
  \<open>ValueError\<close>, raised before any file of the line is resolved. In the standalone
  variant a row with fewer than two fields ends the iteration with an error in the same
  way, whereas a row with more than two fields is treated as the row of its first two
  fields. For a short row the error is \<open>IndexError\<close> once the rows before it were
  processed without error and the load of its one field, if it has one, has succeeded.
\<close>

theorem malformed_row:
  "(files w csv_file = Some g \<and> text_lines lb g = pre @ bad # post \<and>
      length (str_split CHR '','' (strip bad)) \<noteq> 2 \<longrightarrow>
      (\<exists>exs e w'. generate_examples lb cfg csv_file w = (exs, Some e, w') \<and>
         length exs \<le> length pre) \<and>
      (\<forall>exs0 w0. run_generator (generate_body lb cfg) (enumerate_from0 pre) w = (exs0, None, w0) \<longrightarrow>
         generate_examples lb cfg csv_file w = (exs0, Some ValueError, w0))) \<and>
   (files w (gen_context self @ [split self]) = Some f \<and>
      visit_order rnd shuffle (csv_reader lb f) = pre' @ bad' # post' \<longrightarrow>
      (length bad' < 2 \<longrightarrow>
         (\<exists>exs e w'. call lb self rnd shuffle st sc pf w = (exs, Some e, w') \<and>
            length exs \<le> length pre')) \<and>
      (2 < length bad' \<longrightarrow>
         call lb self rnd shuffle st sc pf w =
           run_generator (call_body lb self st sc pf) (pre' @ take 2 bad' # post') w) \<and>
      (\<forall>exs0 w0. run_generator (call_body lb self st sc pf) pre' w = (exs0, None, w0) \<longrightarrow>
         (bad' = [] \<longrightarrow> call lb self rnd shuffle st sc pf w = (exs0, Some IndexError, w0)) \<and>
         (\<forall>a img w1. bad' = [a] \<and> load_image lb self S1 a st sc w0 = (Inr img, w1) \<longrightarrow>
            call lb self rnd shuffle st sc pf w = (exs0, Some IndexError, w1))))"
proof (intro conjI impI allI)
  assume h: "files w csv_file = Some g \<and> text_lines lb g = pre @ bad # post \<and>
      length (str_split CHR '','' (strip bad)) \<noteq> 2"
  obtain rest where en: "enumerate_from0 (pre @ bad # post) =
      enumerate_from0 pre @ (length pre, bad) # rest"
    using enumerate_from0_split [of pre bad post] by blast
  have bad: "generate_body lb cfg (length pre, bad) w1 = (Inl ValueError, w1)" for w1
    using h by (simp add: generate_body_wrong_count)
  have g: "generate_examples lb cfg csv_file w =
      run_generator (generate_body lb cfg) (enumerate_from0 pre @ (length pre, bad) # rest) w"
    using h en by (simp add: generate_examples_def)
  have "\<exists>xs e w'. run_generator (generate_body lb cfg)
          (enumerate_from0 pre @ (length pre, bad) # rest) w = (xs, Some e, w') \<and>
          length xs \<le> length (enumerate_from0 pre)"
    by (rule run_generator_stops) (simp add: bad)
  then show "\<exists>exs e w'. generate_examples lb cfg csv_file w = (exs, Some e, w') \<and>
         length exs \<le> length pre"
    by (simp add: g length_enumerate_from0)
  show "generate_examples lb cfg csv_file w = (exs0, Some ValueError, w0)"
    if "run_generator (generate_body lb cfg) (enumerate_from0 pre) w = (exs0, None, w0)"
    for exs0 w0
    using that by (simp add: g run_generator_append bad)
next
  assume h: "files w (gen_context self @ [split self]) = Some f \<and>
      visit_order rnd shuffle (csv_reader lb f) = pre' @ bad' # post'"
  have c: "call lb self rnd shuffle st sc pf w =
      run_generator (call_body lb self st sc pf) (pre' @ bad' # post') w"
    using h by (simp add: call_def)
  show "\<exists>exs e w'. call lb self rnd shuffle st sc pf w = (exs, Some e, w') \<and>
            length exs \<le> length pre'"
    if "length bad' < 2"
    unfolding c by (rule run_generator_stops) (rule call_body_short_row [OF that])
  show "call lb self rnd shuffle st sc pf w =
           run_generator (call_body lb self st sc pf) (pre' @ take 2 bad' # post') w"
    if "2 < length bad'"
    unfolding c by (rule run_generator_same_body) (rule call_body_long_row, use that in simp)
  show "call lb self rnd shuffle st sc pf w = (exs0, Some IndexError, w0)"
    if "run_generator (call_body lb self st sc pf) pre' w = (exs0, None, w0)" and "bad' = []"
    for exs0 w0
    using that by (simp add: c run_generator_append call_body_def getitem_def)
  show "call lb self rnd shuffle st sc pf w = (exs0, Some IndexError, w1)"
    if "run_generator (call_body lb self st sc pf) pre' w = (exs0, None, w0)"
      and "bad' = [a] \<and> load_image lb self S1 a st sc w0 = (Inr img, w1)"
    for exs0 w0 a img w1
    using that by (simp add: c run_generator_append call_body_def getitem_def)
qed


subsection \<open>The test doubles evaluated\<close>

lemma mock_files:
  "files (mock_world m) [''ctx'', ''m.csv''] = Some m"
  "files (mock_world m) (''ctx'' # S1 @ [''a.tif'']) = Some [7, 1, 2]"
  "files (mock_world m) (''ctx'' # LABELS @ [''la.tif'']) = Some [7, 255, 0]"
  "files (mock_world m) (''ctx'' # S1 @ [''b.tif'']) = None"
  by (simp_all add: mock_world_def S1_def LABELS_def)

lemma mock_decode:
  "rasterio_read mock_libs [7, 1, 2] = Inr (IntArray Int16 [1, 2])"
  "rasterio_read mock_libs [7, 255, 0] = Inr (IntArray Int16 [- 1, 0])"
  by (simp_all add: rasterio_read_def mock_libs_def)

lemma mock_load_image:
  "load_image mock_libs mock_gen S1 ''a.tif'' st sc (mock_world m) =
     (Inr (IntArray Int16 [1, 2]), mock_world m)"
  "load_image mock_libs mock_gen LABELS ''la.tif'' st sc (mock_world m) =
     (Inr (IntArray Int16 [- 1, 0]), mock_world m)"
proof -
  have f1: "files (mock_world m) (gen_context mock_gen @ S1 @ [''a.tif'']) = Some [7, 1, 2]"
    by (simp add: mock_files mock_gen_def)
  show "load_image mock_libs mock_gen S1 ''a.tif'' st sc (mock_world m) =
     (Inr (IntArray Int16 [1, 2]), mock_world m)"
    by (simp add: load_image_local [OF f1] mock_decode)
  have f2: "files (mock_world m) (gen_context mock_gen @ LABELS @ [''la.tif'']) = Some [7, 255, 0]"
    by (simp add: mock_files mock_gen_def)
  show "load_image mock_libs mock_gen LABELS ''la.tif'' st sc (mock_world m) =
     (Inr (IntArray Int16 [- 1, 0]), mock_world m)"
    by (simp add: load_image_local [OF f2] mock_decode)
qed

lemma mock_load_input:
  "load_input mock_libs (mock_config False) S1 ''a.tif'' False (mock_world m) =
     (Inr (IntArray Int16 [1, 2]), mock_world m)"
  "load_input mock_libs (mock_config False) LABELS ''la.tif'' False (mock_world m) =
     (Inr (IntArray Int16 [- 1, 0]), mock_world m)"
proof -
  have f3: "files (mock_world m) (config_context (mock_config False) @ S1 @ [''a.tif'']) = Some [7, 1, 2]"
    by (simp add: mock_files mock_config_def)
  show "load_input mock_libs (mock_config False) S1 ''a.tif'' False (mock_world m) =
     (Inr (IntArray Int16 [1, 2]), mock_world m)"
    by (simp add: load_input_local [OF f3] mock_decode)
  have f4: "files (mock_world m) (config_context (mock_config False) @ LABELS @ [''la.tif'']) = Some [7, 255, 0]"
    by (simp add: mock_files mock_config_def)
  show "load_input mock_libs (mock_config False) LABELS ''la.tif'' False (mock_world m) =
     (Inr (IntArray Int16 [- 1, 0]), mock_world m)"
    by (simp add: load_input_local [OF f4] mock_decode)
qed

lemma mock_call_body:
  "call_body mock_libs mock_gen st sc None (''a.tif'' # ''la.tif'' # extra) (mock_world m) =
     (Inr [''image'' \<mapsto> IntArray Int16 [1, 2], ''mask'' \<mapsto> IntArray Int16 [- 1, 0]], mock_world m)"
  by (simp add: call_body_def getitem_def mock_load_image)

lemma mock_split:
  "str_split CHR '','' (strip ''a.tif,la.tif\<newline>'') = [''a.tif'', ''la.tif'']"
  "str_split CHR '','' (strip ''a.tif\<newline>'') = [''a.tif'']"
  "str_split CHR '','' (strip ''a.tif,la.tif,x\<newline>'') = [''a.tif'', ''la.tif'', ''x'']"
  by (simp_all add: strip_def isspace_def)

lemma mock_generate_body:
  "generate_body mock_libs (mock_config False) (idx, ''a.tif,la.tif\<newline>'') (mock_world m) =
     (Inr (idx, [''image'' \<mapsto> FloatArray Float64 [Finite 1, Finite 1],
                 ''mask'' \<mapsto> IntArray Int16 [255, 0]]), mock_world m)"
proof -
  have c: "no_cache (mock_config False) = False"
    by (simp add: mock_config_def)
  have i: "process_image (IntArray Int16 [1, 2]) = FloatArray Float64 [Finite 1, Finite 1]"
    by (simp add: process_image_def wrap_int_def)
  have k: "process_mask (numpy_strict mock_libs) (IntArray Int16 [- 1, 0]) =
      Inr (IntArray Int16 [255, 0])"
    by (simp add: process_mask_def mock_libs_def)
  show ?thesis
    by (simp add: generate_body_def mock_split c mock_load_input i k)
qed

lemma mock_readable:
  "readable mock_libs (mock_world m) (''ctx'' # S1 @ [''a.tif''])"
  "readable mock_libs (mock_world m) (''ctx'' # LABELS @ [''la.tif''])"
  "readable_mask mock_libs (mock_world m) (''ctx'' # LABELS @ [''la.tif''])"
  by (simp_all add: readable_def readable_mask_def mock_files) (simp_all add: mock_libs_def)

theorem extra_fields_accepted_counterexample:
  "csv_reader mock_libs [2] = [[''a.tif'', ''la.tif'', ''x'']] \<and>
   length [''a.tif'', ''la.tif'', ''x''] \<noteq> 2 \<and>
   fst (snd (call mock_libs mock_gen id False False True None (mock_world [2]))) = None \<and>
   length (fst (call mock_libs mock_gen id False False True None (mock_world [2]))) = 1"
proof -
  have r: "csv_reader mock_libs [2] = [[''a.tif'', ''la.tif'', ''x'']]"
    by (simp add: mock_libs_def)
  have p: "gen_context mock_gen @ [split mock_gen] = [''ctx'', ''m.csv'']"
    by (simp add: mock_gen_def)
  show ?thesis
    by (simp add: r call_def p mock_files visit_order_def mock_call_body)
qed

theorem malformed_row_witness:
  "files (mock_world [0, 3]) [''ctx'', ''m.csv''] = Some [0, 3] \<and>
   text_lines mock_libs [0, 3] = [''a.tif,la.tif\<newline>''] @ ''a.tif\<newline>'' # [] \<and>
   length (str_split CHR '','' (strip ''a.tif\<newline>'')) \<noteq> 2 \<and>
   fst (snd (generate_examples mock_libs (mock_config False) [''ctx'', ''m.csv'']
               (mock_world [0, 3]))) = Some ValueError \<and>
   length (fst (generate_examples mock_libs (mock_config False) [''ctx'', ''m.csv'']
                  (mock_world [0, 3]))) = 1 \<and>
   files (mock_world [0, 3]) (gen_context mock_gen @ [split mock_gen]) = Some [0, 3] \<and>
   visit_order id False (csv_reader mock_libs [0, 3]) = [[''a.tif'', ''la.tif'']] @ [''a.tif''] # [] \<and>
   length [''a.tif''] < 2 \<and>
   fst (snd (call mock_libs mock_gen id False False True None (mock_world [0, 3]))) =
     Some IndexError \<and>
   length (fst (call mock_libs mock_gen id False False True None (mock_world [0, 3]))) = 1 \<and>
   files (mock_world [2]) (gen_context mock_gen @ [split mock_gen]) = Some [2] \<and>
   visit_order id False (csv_reader mock_libs [2]) = [] @ [''a.tif'', ''la.tif'', ''x''] # [] \<and>
   2 < length [''a.tif'', ''la.tif'', ''x''] \<and>
   call mock_libs mock_gen id False False True None (mock_world [2]) =
     run_generator (call_body mock_libs mock_gen False True None) [[''a.tif'', ''la.tif'']]
       (mock_world [2])"
proof -
  have p: "gen_context mock_gen @ [split mock_gen] = [''ctx'', ''m.csv'']"
    by (simp add: mock_gen_def)
  have f: "files (mock_world [0, 3]) [''ctx'', ''m.csv''] = Some [0, 3]"
    by (rule mock_files)
  have t: "text_lines mock_libs [0, 3] = [''a.tif,la.tif\<newline>''] @ ''a.tif\<newline>'' # []"
    by (simp add: mock_libs_def)
  have n: "length (str_split CHR '','' (strip ''a.tif\<newline>'')) \<noteq> 2"
    by (simp add: mock_split)
  have r: "run_generator (generate_body mock_libs (mock_config False))
        (enumerate_from0 [''a.tif,la.tif\<newline>'']) (mock_world [0, 3]) =
      ([(0, [''image'' \<mapsto> FloatArray Float64 [Finite 1, Finite 1], ''mask'' \<mapsto> IntArray Int16 [255, 0]])],
       None, mock_world [0, 3])"
    by (simp add: enumerate_from0_def mock_generate_body)
  have v: "visit_order id False (csv_reader mock_libs [0, 3]) =
      [[''a.tif'', ''la.tif'']] @ [''a.tif''] # []"
    by (simp add: visit_order_def mock_libs_def)
  have l: "length [''a.tif''] < 2"
    by simp
  note m = malformed_row [of "mock_world [0, 3]" "[''ctx'', ''m.csv'']" "[0, 3]" mock_libs
      "[''a.tif,la.tif\<newline>'']" "''a.tif\<newline>''" "[]" "mock_config False"
      mock_gen "[0, 3]" id False "[[''a.tif'', ''la.tif'']]" "[''a.tif'']" "[]"
      False True None]
  note fw = mp [OF conjunct1 [OF m] conjI [OF f conjI [OF t n]]]
  have g: "generate_examples mock_libs (mock_config False) [''ctx'', ''m.csv''] (mock_world [0, 3]) =
     ([(0, [''image'' \<mapsto> FloatArray Float64 [Finite 1, Finite 1], ''mask'' \<mapsto> IntArray Int16 [255, 0]])],
      Some ValueError, mock_world [0, 3])"
    using conjunct2 [OF fw] r by (elim allE impE) assumption
  have f3: "files (mock_world [0, 3]) (gen_context mock_gen @ [split mock_gen]) = Some [0, 3]"
    by (simp add: p mock_files)
  note sa = mp [OF conjunct2 [OF m] conjI [OF f3 v]]
  have pr: "run_generator (call_body mock_libs mock_gen False True None) [[''a.tif'', ''la.tif'']]
        (mock_world [0, 3]) =
      ([[''image'' \<mapsto> IntArray Int16 [1, 2], ''mask'' \<mapsto> IntArray Int16 [- 1, 0]]], None,
       mock_world [0, 3])"
    by (simp add: mock_call_body)
  have ld: "[''a.tif''] = [''a.tif''] \<and>
      load_image mock_libs mock_gen S1 ''a.tif'' False True (mock_world [0, 3]) =
        (Inr (IntArray Int16 [1, 2]), mock_world [0, 3])"
    by (simp add: mock_load_image)
  have c: "call mock_libs mock_gen id False False True None (mock_world [0, 3]) =
      ([[''image'' \<mapsto> IntArray Int16 [1, 2], ''mask'' \<mapsto> IntArray Int16 [- 1, 0]]], Some IndexError,
       mock_world [0, 3])"
    by (rule mp [OF spec [OF spec [OF spec [OF conjunct2
          [OF mp [OF spec [OF spec [OF conjunct2 [OF conjunct2 [OF sa]]]] pr]]]]] ld])
  have f2: "files (mock_world [2]) (gen_context mock_gen @ [split mock_gen]) = Some [2]"
    by (simp add: p mock_files)
  have v2: "visit_order id False (csv_reader mock_libs [2]) =
      [] @ [''a.tif'', ''la.tif'', ''x''] # []"
    by (simp add: visit_order_def mock_libs_def)
  have l2: "2 < length [''a.tif'', ''la.tif'', ''x'']"
    by simp
  note m2 = malformed_row [of "mock_world [2]" "[]" "[]" mock_libs "[]" "[]" "[]" "mock_config False"
      mock_gen "[2]" id False "[]" "[''a.tif'', ''la.tif'', ''x'']" "[]" False True None]
  have c2: "call mock_libs mock_gen id False False True None (mock_world [2]) =
     run_generator (call_body mock_libs mock_gen False True None)
       ([] @ take 2 [''a.tif'', ''la.tif'', ''x''] # []) (mock_world [2])"
    by (rule mp [OF conjunct1 [OF conjunct2 [OF mp [OF conjunct2 [OF m2] conjI [OF f2 v2]]]] l2])
  have c3: "call mock_libs mock_gen id False False True None (mock_world [2]) =
     run_generator (call_body mock_libs mock_gen False True None) [[''a.tif'', ''la.tif'']]
       (mock_world [2])"
    using c2 by (simp add: numeral_2_eq_2)
  have g1: "fst (snd (generate_examples mock_libs (mock_config False) [''ctx'', ''m.csv'']
               (mock_world [0, 3]))) = Some ValueError"
    by (simp add: g)
  have g2: "length (fst (generate_examples mock_libs (mock_config False) [''ctx'', ''m.csv'']
                  (mock_world [0, 3]))) = 1"
    by (simp add: g)
  have c4: "fst (snd (call mock_libs mock_gen id False False True None (mock_world [0, 3]))) =
     Some IndexError"
    by (simp add: c)
  have c5: "length (fst (call mock_libs mock_gen id False False True None (mock_world [0, 3]))) = 1"
    by (simp add: c)
  show ?thesis
    by (intro conjI f t n g1 g2 f3 v l c4 c5 f2 v2 l2 c3)
qed

text \<open>
  Claim C6. For a manifest whose rows all have two fields, \<open>len\<close> returns the number of
  rows; an iteration that runs to its end without an exception yields exactly that many
  examples, whatever the flags; without a \<open>process_func\<close> every example yielded has exactly
  the keys \<open>image\<close> and \<open>mask\<close>; and when every file the manifest names is present
  locally and readable the iteration does run to its end, leaving the state unchanged.
  The same holds for the framework variant over the lines of its manifest; for the last
  part \<open>no_cache\<close> is false and the masks have a dtype that can hold 255, so that mask
  remapping does not raise.
\<close>

theorem manifest_rows_examples:
  "(files w (gen_context self @ [split self]) = Some f \<and>
      (\<forall>row\<in>set (csv_reader lb f). length row = 2) \<longrightarrow>
      len lb self w = Inr (length (csv_reader lb f)) \<and>
      (\<forall>exs w'. call lb self rnd shuffle st sc pf w = (exs, None, w') \<longrightarrow>
         length exs = length (csv_reader lb f)) \<and>
      (\<forall>exs res w'. call lb self rnd shuffle st sc None w = (exs, res, w') \<longrightarrow>
         (\<forall>ex\<in>set exs. dom ex = {''image'', ''mask''})) \<and>
      ((\<forall>row\<in>set (csv_reader lb f).
          readable lb w (gen_context self @ S1 @ [row ! 0]) \<and>
          readable lb w (gen_context self @ LABELS @ [row ! 1])) \<longrightarrow>
       (\<exists>exs. call lb self rnd shuffle st sc pf w = (exs, None, w) \<and>
          length exs = length (csv_reader lb f)))) \<and>
   (files w csv_file = Some g \<and>
      (\<forall>line\<in>set (text_lines lb g). length (str_split CHR '','' (strip line)) = 2) \<longrightarrow>
      (\<forall>exs w'. generate_examples lb cfg csv_file w = (exs, None, w') \<longrightarrow>
         length exs = length (text_lines lb g)) \<and>
      (\<forall>exs res w'. generate_examples lb cfg csv_file w = (exs, res, w') \<longrightarrow>
         (\<forall>ex\<in>set exs. dom (snd ex) = {''image'', ''mask''})) \<and>
      (no_cache cfg = False \<and>
       (\<forall>line\<in>set (text_lines lb g).
          readable lb w (config_context cfg @ S1 @ [str_split CHR '','' (strip line) ! 0]) \<and>
          readable_mask lb w (config_context cfg @ LABELS @ [str_split CHR '','' (strip line) ! 1])) \<longrightarrow>
       (\<exists>exs. generate_examples lb cfg csv_file w = (exs, None, w) \<and>
          length exs = length (text_lines lb g))))"
proof (intro conjI impI allI)
  assume h: "files w (gen_context self @ [split self]) = Some f \<and>
      (\<forall>row\<in>set (csv_reader lb f). length row = 2)"
  have c: "call lb self rnd shuffle st sc pf w =
      run_generator (call_body lb self st sc pf) (visit_order rnd shuffle (csv_reader lb f)) w" for pf
    using h by (simp add: call_def)
  show "len lb self w = Inr (length (csv_reader lb f))"
    using h by (simp add: len_def)
  show "length exs = length (csv_reader lb f)"
    if "call lb self rnd shuffle st sc pf w = (exs, None, w')" for exs w'
    using run_generator_length [OF that [unfolded c]] by (simp add: length_visit_order)
  show "\<forall>ex\<in>set exs. dom ex = {''image'', ''mask''}"
    if "call lb self rnd shuffle st sc None w = (exs, res, w')" for exs res w'
    using that [unfolded c] by (rule run_generator_yields [rotated]) (rule call_body_keys)
  show "\<exists>exs. call lb self rnd shuffle st sc pf w = (exs, None, w) \<and>
          length exs = length (csv_reader lb f)"
    if r: "\<forall>row\<in>set (csv_reader lb f).
          readable lb w (gen_context self @ S1 @ [row ! 0]) \<and>
          readable lb w (gen_context self @ LABELS @ [row ! 1])"
  proof -
    have "\<forall>row\<in>set (visit_order rnd shuffle (csv_reader lb f)).
            \<exists>x. call_body lb self st sc pf row w = (Inr x, w)"
      using h r by (simp add: set_visit_order call_body_readable)
    from run_generator_pure [of "visit_order rnd shuffle (csv_reader lb f)"
        "call_body lb self st sc pf" w, OF this] show ?thesis
      by (simp add: c length_visit_order)
  qed
next
  assume h: "files w csv_file = Some g \<and>
      (\<forall>line\<in>set (text_lines lb g). length (str_split CHR '','' (strip line)) = 2)"
  have c: "generate_examples lb cfg csv_file w =
      run_generator (generate_body lb cfg) (enumerate_from0 (text_lines lb g)) w"
    using h by (simp add: generate_examples_def)
  show "length exs = length (text_lines lb g)"
    if "generate_examples lb cfg csv_file w = (exs, None, w')" for exs w'
    using run_generator_length [OF that [unfolded c]] by (simp add: length_enumerate_from0)
  show "\<forall>ex\<in>set exs. dom (snd ex) = {''image'', ''mask''}"
    if "generate_examples lb cfg csv_file w = (exs, res, w')" for exs res w'
    using that [unfolded c] by (rule run_generator_yields [rotated]) (rule generate_body_keys)
  show "\<exists>exs. generate_examples lb cfg csv_file w = (exs, None, w) \<and>
          length exs = length (text_lines lb g)"
    if r: "no_cache cfg = False \<and>
       (\<forall>line\<in>set (text_lines lb g).
          readable lb w (config_context cfg @ S1 @ [str_split CHR '','' (strip line) ! 0]) \<and>
          readable_mask lb w (config_context cfg @ LABELS @ [str_split CHR '','' (strip line) ! 1]))"
  proof -
    have "\<exists>x. generate_body lb cfg item w = (Inr x, w)"
      if "item \<in> set (enumerate_from0 (text_lines lb g))" for item
    proof -
      obtain idx line where i: "item = (idx, line)" by (cases item)
      with that have l: "line \<in> set (text_lines lb g)"
        by (auto dest: set_enumerate_from0)
      have "\<exists>x. generate_body lb cfg (idx, line) w = (Inr x, w)"
      proof (rule generate_body_readable)
        show "length (str_split CHR '','' (strip line)) = 2" using h l by blast
        show "no_cache cfg = False" using r by blast
        show "readable lb w (config_context cfg @ S1 @ [str_split CHR '','' (strip line) ! 0])"
          using r l by blast
        show "readable_mask lb w (config_context cfg @ LABELS @ [str_split CHR '','' (strip line) ! 1])"
          using r l by blast
      qed
      with i show ?thesis by simp
    qed
    then have "\<forall>item\<in>set (enumerate_from0 (text_lines lb g)).
        \<exists>x. generate_body lb cfg item w = (Inr x, w)"
      by blast
    from run_generator_pure [of "enumerate_from0 (text_lines lb g)"
        "generate_body lb cfg" w, OF this] show ?thesis
      by (simp add: c length_enumerate_from0)
  qed
qed

theorem manifest_rows_examples_witness:
  "files (mock_world [0, 0]) (gen_context mock_gen @ [split mock_gen]) = Some [0, 0] \<and>
   csv_reader mock_libs [0, 0] = [[''a.tif'', ''la.tif''], [''a.tif'', ''la.tif'']] \<and>
   len mock_libs mock_gen (mock_world [0, 0]) = Inr 2 \<and>
   snd (call mock_libs mock_gen id True False True None (mock_world [0, 0])) =
     (None, mock_world [0, 0]) \<and>
   length (fst (call mock_libs mock_gen id True False True None (mock_world [0, 0]))) = 2 \<and>
   map dom (fst (call mock_libs mock_gen id False False True None (mock_world [0, 0]))) =
     [{''image'', ''mask''}, {''image'', ''mask''}] \<and>
   text_lines mock_libs [0, 0] = [''a.tif,la.tif\<newline>'', ''a.tif,la.tif\<newline>''] \<and>
   str_split CHR '','' (strip ''a.tif,la.tif\<newline>'') = [''a.tif'', ''la.tif''] \<and>
   snd (generate_examples mock_libs (mock_config False) [''ctx'', ''m.csv''] (mock_world [0, 0])) =
     (None, mock_world [0, 0]) \<and>
   length (fst (generate_examples mock_libs (mock_config False) [''ctx'', ''m.csv'']
                  (mock_world [0, 0]))) = 2"
proof -
  have p: "gen_context mock_gen @ [split mock_gen] = [''ctx'', ''m.csv'']"
    by (simp add: mock_gen_def)
  have f: "files (mock_world [0, 0]) (gen_context mock_gen @ [split mock_gen]) = Some [0, 0]"
    by (simp add: mock_gen_def mock_files)
  have rows: "csv_reader mock_libs [0, 0] = [[''a.tif'', ''la.tif''], [''a.tif'', ''la.tif'']]"
    by (simp add: mock_libs_def)
  have v: "\<forall>row\<in>set (csv_reader mock_libs [0, 0]). length row = 2"
    by (simp add: rows)
  have r: "\<forall>row\<in>set (csv_reader mock_libs [0, 0]).
      readable mock_libs (mock_world [0, 0]) (gen_context mock_gen @ S1 @ [row ! 0]) \<and>
      readable mock_libs (mock_world [0, 0]) (gen_context mock_gen @ LABELS @ [row ! 1])"
    by (simp add: rows mock_gen_def mock_readable)
  have g: "files (mock_world [0, 0]) [''ctx'', ''m.csv''] = Some [0, 0]"
    by (rule mock_files)
  have lines: "text_lines mock_libs [0, 0] = [''a.tif,la.tif\<newline>'', ''a.tif,la.tif\<newline>'']"
    by (simp add: mock_libs_def)
  have v2: "\<forall>line\<in>set (text_lines mock_libs [0, 0]). length (str_split CHR '','' (strip line)) = 2"
    by (simp add: lines mock_split)
  have n: "no_cache (mock_config False) = False"
    by (simp add: mock_config_def)
  have r2: "\<forall>line\<in>set (text_lines mock_libs [0, 0]).
      readable mock_libs (mock_world [0, 0])
        (config_context (mock_config False) @ S1 @ [str_split CHR '','' (strip line) ! 0]) \<and>
      readable_mask mock_libs (mock_world [0, 0])
        (config_context (mock_config False) @ LABELS @ [str_split CHR '','' (strip line) ! 1])"
    by (simp add: lines mock_split mock_config_def mock_readable)
  note m = manifest_rows_examples [of "mock_world [0, 0]" mock_gen "[0, 0]" mock_libs id True
      False True None "[''ctx'', ''m.csv'']" "[0, 0]" "mock_config False"]
  note s = mp [OF conjunct1 [OF m] conjI [OF f v]]
  note b = mp [OF conjunct2 [OF m] conjI [OF g v2]]
  have l: "len mock_libs mock_gen (mock_world [0, 0]) = Inr (length (csv_reader mock_libs [0, 0]))"
    by (rule conjunct1 [OF s])
  have "\<exists>exs. call mock_libs mock_gen id True False True None (mock_world [0, 0]) =
      (exs, None, mock_world [0, 0]) \<and> length exs = length (csv_reader mock_libs [0, 0])"
    by (rule mp [OF conjunct2 [OF conjunct2 [OF conjunct2 [OF s]]] r])
  then obtain exs where
    c: "call mock_libs mock_gen id True False True None (mock_world [0, 0]) =
      (exs, None, mock_world [0, 0])" "length exs = length (csv_reader mock_libs [0, 0])"
    by (elim exE conjE)
  have "\<exists>exs. generate_examples mock_libs (mock_config False) [''ctx'', ''m.csv''] (mock_world [0, 0]) =
      (exs, None, mock_world [0, 0]) \<and> length exs = length (text_lines mock_libs [0, 0])"
    by (rule mp [OF conjunct2 [OF conjunct2 [OF b]] conjI [OF n r2]])
  then obtain exs2 where
    c2: "generate_examples mock_libs (mock_config False) [''ctx'', ''m.csv''] (mock_world [0, 0]) =
      (exs2, None, mock_world [0, 0])" "length exs2 = length (text_lines mock_libs [0, 0])"
    by (elim exE conjE)
  have l2: "len mock_libs mock_gen (mock_world [0, 0]) = Inr 2"
    using l by (simp add: rows)
  have e1: "snd (call mock_libs mock_gen id True False True None (mock_world [0, 0])) =
     (None, mock_world [0, 0])"
    by (simp add: c(1))
  have e2: "length (fst (call mock_libs mock_gen id True False True None (mock_world [0, 0]))) = 2"
    using c(2) by (simp add: c(1) rows)
  have e3: "map dom (fst (call mock_libs mock_gen id False False True None (mock_world [0, 0]))) =
     [{''image'', ''mask''}, {''image'', ''mask''}]"
    by (simp add: call_def p mock_files visit_order_def rows mock_call_body insert_commute)
  have e4: "snd (generate_examples mock_libs (mock_config False) [''ctx'', ''m.csv''] (mock_world [0, 0])) =
     (None, mock_world [0, 0])"
    by (simp add: c2(1))
  have e5: "length (fst (generate_examples mock_libs (mock_config False) [''ctx'', ''m.csv'']
                  (mock_world [0, 0]))) = 2"
    using c2(2) by (simp add: c2(1) lines)
  show ?thesis
    by (intro conjI f rows l2 e1 e2 e3 lines mock_split(1) e4 e5)
qed

text \<open>
  Claim C9. For a key outside the split table the loader's lookup has no failing case:
  it returns a generator over the loader's context whose manifest filename is the key
  itself.
\<close>

theorem unknown_split_key:
  "key \<notin> {''train'', ''validation'', ''test'', ''sample''} \<Longrightarrow>
     loader_getitem ctx key = \<lparr>gen_context = ctx, split = key\<rparr>"
  by (simp add: loader_getitem_def dict_get_def SPLITS_def)

theorem unknown_split_key_witness:
  "''extra.csv'' \<notin> {''train'', ''validation'', ''test'', ''sample''} \<and>
   loader_getitem [''ctx''] ''extra.csv'' = \<lparr>gen_context = [''ctx''], split = ''extra.csv''\<rparr> \<and>
   loader_getitem [''ctx''] ''train'' = \<lparr>gen_context = [''ctx''], split = ''train_data.csv''\<rparr>"
  using unknown_split_key [of "''extra.csv''" "[''ctx'']"]
  by (simp add: loader_getitem_def dict_get_def SPLITS_def)

end
